theory Spec2Isabelle
  imports Complex_Main
begin

section \<open>Fine-tuning engine: one training epoch and one evaluation pass\<close>

text \<open>
  A shallow embedding of \<^verbatim>\<open>engine_finetune.py\<close>. The two functions of the file,
  \<^verbatim>\<open>train_one_epoch\<close> and \<^verbatim>\<open>evaluate\<close>, are sequential control flow over
  collaborators that the file does not define (model, criterion, optimizer, loss scaler,
  metric logger, plotting library). The embedding keeps the control flow of the source
  and makes its effects explicit:
  \<^item> every call to a collaborator is appended to \<open>calls\<close>, in program order;
  \<^item> what a collaborator returns to the code (the loss of a batch, the learning rates of
    the optimizer's parameter groups, the accuracy and F1 of a batch, the predicted and
    the true class of every sample) is an input, one record per batch;
  \<^item> every way a call can end other than by \<^verbatim>\<open>return\<close> is a value of \<open>error\<close>;
  \<^item> Python floats are idealised as reals, apart from the non-finite values that the
    training loop tests for; distributed mode is not initialised, so the cross-process
    reductions return the local values.
\<close>

subsection \<open>Values, errors and collaborator calls\<close>

datatype pyfloat = Finite real | PosInf | NegInf | NaN

fun isfinite :: "pyfloat \<Rightarrow> bool" where
  "isfinite (Finite x) = True"
| "isfinite PosInf = False"
| "isfinite NegInf = False"
| "isfinite NaN = False"

datatype error =
    SystemExit int
  | ZeroDivisionError
  | KeyError int
  | UnboundLocalError string

datatype printed =
    LogDir string
  | LossStop pyfloat
  | AveragedStats
  | TestSummary real real real real

text \<open>
  The calls the two functions make. A natural number argument is the index of the batch
  the call is made for; it identifies the batch and is not an argument of the Python call.
  \<open>AdjustLearningRate k n epoch\<close> stands for
  \<^verbatim>\<open>lr_sched.adjust_learning_rate(optimizer, k / n + epoch, args)\<close> and
  \<open>AddScalar name v k n epoch\<close> for \<^verbatim>\<open>log_writer.add_scalar(name, v, int((k / n + epoch) * 1000))\<close>:
  the floating point coordinate is kept symbolic. \<open>Forward k t g\<close> is \<^verbatim>\<open>model(samples)\<close>
  with the model's training flag \<open>t\<close> and the gradient mode \<open>g\<close> at the time of the call.
  \<open>LossScaler k l u\<close> is \<^verbatim>\<open>loss_scaler(l, optimizer, ..., update_grad=u)\<close>.
  \<open>Heatmap y_true y_pred labels\<close> is the heatmap of \<^verbatim>\<open>confusion_matrix(y_true, y_pred)\<close>
  with the given tick labels.
\<close>

datatype event =
    ModelTrain
  | ModelEval
  | ZeroGrad
  | Print printed
  | AdjustLearningRate nat nat int
  | Mixup nat
  | Forward nat bool bool
  | Criterion nat
  | LossScaler nat real bool
  | AllReduceMean nat
  | AddScalar string real nat nat int
  | Synchronize
  | Figure
  | Heatmap "int list" "int list" "string list"
  | XLabel string
  | YLabel string
  | Title string real
  | Show
  | SaveFig string

subsection \<open>The metric logger\<close>

text \<open>
  Modelled from the spec: \<^verbatim>\<open>util/misc.py\<close> (\<^verbatim>\<open>SmoothedValue\<close>, \<^verbatim>\<open>MetricLogger\<close>) is not among the
  sources. A meter accumulates the values it is updated with, each with a weight \<open>n\<close>
  (1 unless the caller gives one), and its global average is the weighted sum of the
  values divided by the sum of the weights, a Python division, which raises on a meter
  that has counted nothing. A meter is kept as the sequence of its updates. The logger's
  \<open>meters\<close> is a dictionary that creates an empty meter for a name on first access; it
  is an association list in insertion order.
\<close>

type_synonym SmoothedValue = "(real \<times> nat) list"

definition count :: "SmoothedValue \<Rightarrow> nat" where
  "count m = sum_list (map snd m)"

definition total :: "SmoothedValue \<Rightarrow> real" where
  "total m = sum_list (map (\<lambda>(v, n). v * real n) m)"

definition global_avg :: "SmoothedValue \<Rightarrow> error + real" where
  "global_avg m = (if count m = 0 then Inl ZeroDivisionError else Inr (total m / real (count m)))"

text \<open>\<^verbatim>\<open>metric_logger.meters[k].update(v, n=n)\<close>\<close>

fun meter_update :: "string \<Rightarrow> real \<Rightarrow> nat \<Rightarrow> (string \<times> SmoothedValue) list \<Rightarrow> (string \<times> SmoothedValue) list" where
  "meter_update k v n [] = [(k, [(v, n)])]"
| "meter_update k v n ((k', m) # ms) =
     (if k' = k then (k', m @ [(v, n)]) # ms else (k', m) # meter_update k v n ms)"

text \<open>\<^verbatim>\<open>metric_logger.update(k=v)\<close>\<close>

definition logger_update :: "string \<Rightarrow> real \<Rightarrow> (string \<times> SmoothedValue) list \<Rightarrow> (string \<times> SmoothedValue) list" where
  "logger_update k v ms = meter_update k v 1 ms"

text \<open>\<^verbatim>\<open>metric_logger.meters[k]\<close>: the meter, and the dictionary with the meter in it.\<close>

definition getitem :: "string \<Rightarrow> (string \<times> SmoothedValue) list \<Rightarrow> SmoothedValue \<times> (string \<times> SmoothedValue) list" where
  "getitem k ms = (case map_of ms k of Some m \<Rightarrow> (m, ms) | None \<Rightarrow> ([], ms @ [(k, [])]))"

text \<open>\<^verbatim>\<open>{k: meter.global_avg for k, meter in metric_logger.meters.items()}\<close>\<close>

fun global_avgs :: "(string \<times> SmoothedValue) list \<Rightarrow> error + (string \<times> real) list" where
  "global_avgs [] = Inr []"
| "global_avgs ((k, m) # ms) =
     (case global_avg m of
        Inl e \<Rightarrow> Inl e
      | Inr v \<Rightarrow> (case global_avgs ms of Inl e \<Rightarrow> Inl e | Inr d \<Rightarrow> Inr ((k, v) # d)))"

subsection \<open>State\<close>

text \<open>
  \<open>calls\<close>: the collaborator calls of the running invocation, oldest first.
  \<open>meters\<close>, \<open>preds\<close>, \<open>targets\<close>: the function's local mutable objects.
  \<open>training\<close>: the model's training flag; \<open>grad_enabled\<close>: the framework's gradient mode.
  \<open>grad_buffer\<close>: the batches whose gradients are accumulated in the parameters'
  gradient buffers; \<open>opt_steps\<close>: the optimizer updates made so far, each with the
  batches whose gradients it applied.
\<close>

record state =
  calls :: "event list"
  meters :: "(string \<times> SmoothedValue) list"
  preds :: "int list list"
  targets :: "int list list"
  training :: bool
  grad_enabled :: bool
  grad_buffer :: "nat list"
  opt_steps :: "nat list list"

definition emit :: "event \<Rightarrow> state \<Rightarrow> state" where
  "emit e s = s\<lparr>calls := calls s @ [e]\<rparr>"

text \<open>
  Modelled from the spec: the optimizer and the loss scaler are supplied by the caller
  (in the repository the scaler is \<^verbatim>\<open>util/misc.py\<close>'s, not among the sources). The scaler
  runs the backward pass of the loss, which adds the batch's gradient to the gradient
  buffers, and, when \<^verbatim>\<open>update_grad\<close> is true, steps the optimizer with what the buffers
  hold. \<^verbatim>\<open>optimizer.zero_grad()\<close> clears the buffers.
\<close>

definition zero_grad :: "state \<Rightarrow> state" where
  "zero_grad s = (emit ZeroGrad s)\<lparr>grad_buffer := []\<rparr>"

definition loss_scaler :: "nat \<Rightarrow> real \<Rightarrow> bool \<Rightarrow> state \<Rightarrow> state" where
  "loss_scaler k l update_grad s =
     (let s = (emit (LossScaler k l update_grad) s)\<lparr>grad_buffer := grad_buffer s @ [k]\<rparr>
      in if update_grad then s\<lparr>opt_steps := opt_steps s @ [grad_buffer s]\<rparr> else s)"

subsection \<open>\<^verbatim>\<open>train_one_epoch\<close>\<close>

text \<open>
  \<open>accum_iter\<close> and \<open>data\<close> are the two fields of \<^verbatim>\<open>args\<close> the file reads. A training
  batch carries what the collaborators return for it: \<open>loss_item\<close> is \<^verbatim>\<open>loss.item()\<close>,
  \<open>param_group_lrs\<close> the \<^verbatim>\<open>"lr"\<close> of each of \<^verbatim>\<open>optimizer.param_groups\<close> when the loop reads
  them. The data loader is the list of its batches, and \<^verbatim>\<open>len(data_loader)\<close> its length.
  \<open>mixup_fn\<close> and \<open>log_writer\<close> tell whether the optional collaborator is given
  (\<open>log_writer\<close> with its \<^verbatim>\<open>log_dir\<close>).
\<close>

record args =
  accum_iter :: int
  data :: string

record train_batch =
  loss_item :: pyfloat
  param_group_lrs :: "real list"

text \<open>
  The body of the loop, lines 48 to 98, for batch number \<open>data_iter_step\<close> of \<open>n\<close>.
  Python's \<^verbatim>\<open>%\<close> on integers is the floor modulus, which is \<open>mod\<close> on \<open>int\<close>, and
  raises for a zero divisor; the first \<^verbatim>\<open>%\<close> of the body is at line 48.
\<close>

definition train_step :: "args \<Rightarrow> int \<Rightarrow> bool \<Rightarrow> string option \<Rightarrow> nat \<Rightarrow> nat \<Rightarrow> train_batch \<Rightarrow> state \<Rightarrow> (error \<times> state) + state" where
  "train_step args epoch mixup_fn log_writer n data_iter_step b s =
     (if accum_iter args = 0 then Inl (ZeroDivisionError, s)
      else
        let s = (if int data_iter_step mod accum_iter args = 0
                 then emit (AdjustLearningRate data_iter_step n epoch) s else s);
            s = (if mixup_fn then emit (Mixup data_iter_step) s else s);
            s = emit (Forward data_iter_step (training s) (grad_enabled s)) s;
            s = emit (Criterion data_iter_step) s
        in case loss_item b of
             Finite loss_value \<Rightarrow>
               let update_grad = ((int data_iter_step + 1) mod accum_iter args = 0);
                   s = loss_scaler data_iter_step (loss_value / real_of_int (accum_iter args)) update_grad s;
                   s = (if update_grad then zero_grad s else s);
                   s = s\<lparr>meters := logger_update ''loss'' loss_value (meters s)\<rparr>;
                   max_lr = foldl max 0 (param_group_lrs b);
                   s = s\<lparr>meters := logger_update ''lr'' max_lr (meters s)\<rparr>;
                   s = emit (AllReduceMean data_iter_step) s;
                   s = (if log_writer \<noteq> None \<and> update_grad
                        then emit (AddScalar ''lr'' max_lr data_iter_step n epoch)
                               (emit (AddScalar ''loss'' loss_value data_iter_step n epoch) s)
                        else s)
               in Inr s
           | loss_value \<Rightarrow> Inl (SystemExit 1, emit (Print (LossStop loss_value)) s))"

fun train_loop :: "args \<Rightarrow> int \<Rightarrow> bool \<Rightarrow> string option \<Rightarrow> nat \<Rightarrow> nat \<Rightarrow> train_batch list \<Rightarrow> state \<Rightarrow> (error \<times> state) + state" where
  "train_loop args epoch mixup_fn log_writer n data_iter_step [] s = Inr s"
| "train_loop args epoch mixup_fn log_writer n data_iter_step (b # bs) s =
     (case train_step args epoch mixup_fn log_writer n data_iter_step b s of
        Inl es \<Rightarrow> Inl es
      | Inr s' \<Rightarrow> train_loop args epoch mixup_fn log_writer n (Suc data_iter_step) bs s')"

text \<open>Lines 32 to 43, before the loop.\<close>

definition train_setup :: "string option \<Rightarrow> state \<Rightarrow> state" where
  "train_setup log_writer s0 =
     (let s = (emit ModelTrain (s0\<lparr>calls := []\<rparr>))\<lparr>training := True\<rparr>;
          s = s\<lparr>meters := [(''lr'', [])]\<rparr>;
          s = zero_grad s;
          s = (case log_writer of None \<Rightarrow> s | Some log_dir \<Rightarrow> emit (Print (LogDir log_dir)) s)
      in s)"

definition train_one_epoch :: "train_batch list \<Rightarrow> int \<Rightarrow> bool \<Rightarrow> string option \<Rightarrow> args \<Rightarrow> state \<Rightarrow> (error + (string \<times> real) list) \<times> state" where
  "train_one_epoch data_loader epoch mixup_fn log_writer args s0 =
     (case train_loop args epoch mixup_fn log_writer (length data_loader) 0 data_loader
             (train_setup log_writer s0) of
        Inl (e, s) \<Rightarrow> (Inl e, s)
      | Inr s \<Rightarrow>
          let s = emit Synchronize s;
              s = emit (Print AveragedStats) s
          in (global_avgs (meters s), s))"

subsection \<open>\<^verbatim>\<open>evaluate\<close>\<close>

text \<open>
  An evaluation batch carries, for each of its samples, the predicted class
  (\<^verbatim>\<open>argmax\<close> of the output) and the target class, and what the criterion, \<^verbatim>\<open>accuracy\<close> and
  \<^verbatim>\<open>f1_score\<close> return for the batch. \<^verbatim>\<open>images.shape[0]\<close> is the number of samples.
\<close>

record eval_batch =
  samples :: "(int \<times> int) list"
  loss_val :: real
  acc1 :: real
  acc3 :: real
  f1 :: real

definition eval_step :: "nat \<Rightarrow> eval_batch \<Rightarrow> state \<Rightarrow> state" where
  "eval_step k batch s =
     (let s = emit (Forward k (training s) (grad_enabled s)) s;
          s = emit (Criterion k) s;
          s = s\<lparr>preds := preds s @ [map fst (samples batch)]\<rparr>;
          s = s\<lparr>targets := targets s @ [map snd (samples batch)]\<rparr>;
          s = s\<lparr>meters := logger_update ''F1'' (f1 batch) (meters s)\<rparr>;
          batch_size = length (samples batch);
          s = s\<lparr>meters := logger_update ''loss'' (loss_val batch) (meters s)\<rparr>;
          s = s\<lparr>meters := meter_update ''acc1'' (acc1 batch) batch_size (meters s)\<rparr>;
          s = s\<lparr>meters := meter_update ''acc3'' (acc3 batch) batch_size (meters s)\<rparr>
      in s)"

fun eval_loop :: "nat \<Rightarrow> eval_batch list \<Rightarrow> state \<Rightarrow> state" where
  "eval_loop k [] s = s"
| "eval_loop k (batch # bs) s = eval_loop (Suc k) bs (eval_step k batch s)"

text \<open>\<^verbatim>\<open>metric_logger.meters[k].global_avg\<close>, as the summary line at 150 reads it.\<close>

definition meter_global_avg :: "string \<Rightarrow> state \<Rightarrow> (error \<times> state) + (real \<times> state)" where
  "meter_global_avg k s =
     (let (m, ms) = getitem k (meters s);
          s = s\<lparr>meters := ms\<rparr>
      in case global_avg m of Inl e \<Rightarrow> Inl (e, s) | Inr v \<Rightarrow> Inr (v, s))"

definition print_summary :: "state \<Rightarrow> (error \<times> state) + state" where
  "print_summary s =
     (case meter_global_avg ''acc1'' s of
        Inl es \<Rightarrow> Inl es
      | Inr (a1, s) \<Rightarrow>
     (case meter_global_avg ''acc3'' s of
        Inl es \<Rightarrow> Inl es
      | Inr (a3, s) \<Rightarrow>
     (case meter_global_avg ''loss'' s of
        Inl es \<Rightarrow> Inl es
      | Inr (l, s) \<Rightarrow>
     (case meter_global_avg ''F1'' s of
        Inl es \<Rightarrow> Inl es
      | Inr (f, s) \<Rightarrow> Inr (emit (Print (TestSummary a1 a3 l f)) s)))))"

text \<open>An f-string renders \<^verbatim>\<open>None\<close> as the text \<^verbatim>\<open>None\<close>.\<close>

definition py_str :: "string option \<Rightarrow> string" where
  "py_str x = (case x of None \<Rightarrow> ''None'' | Some t \<Rightarrow> t)"

definition plots_dir :: string where
  "plots_dir = ''/niddk-data-central/P2/mae_hr/MAE_Accelerometer/plots/''"

text \<open>\<^verbatim>\<open>(preds_tensor == targets_tensor).sum().item() / len(preds_list)\<close>\<close>

definition accordance :: "int list \<Rightarrow> int list \<Rightarrow> nat" where
  "accordance ps ts = length (filter (\<lambda>(p, t). p = t) (zip ps ts))"

definition py_truediv :: "nat \<Rightarrow> nat \<Rightarrow> error + real" where
  "py_truediv a b = (if b = 0 then Inl ZeroDivisionError else Inr (real a / real b))"

text \<open>The dictionary of line 182 and the two list comprehensions over it.\<close>

definition mapping :: "int \<Rightarrow> int option" where
  "mapping = map_of [(0, 0), (1, 1), (2, 1), (3, 1), (4, 0), (5, 0), (6, 0)]"

fun collapse :: "int list \<Rightarrow> error + int list" where
  "collapse [] = Inr []"
| "collapse (x # xs) =
     (case mapping x of
        None \<Rightarrow> Inl (KeyError x)
      | Some y \<Rightarrow> (case collapse xs of Inl e \<Rightarrow> Inl e | Inr ys \<Rightarrow> Inr (y # ys)))"

text \<open>Lines 181 to 204.\<close>

definition collapse_plot :: "int list \<Rightarrow> int list \<Rightarrow> string option \<Rightarrow> string option \<Rightarrow> state \<Rightarrow> (error \<times> state) + state" where
  "collapse_plot preds_list targets_list plot_save_name plot_title s =
     (case collapse preds_list of
        Inl e \<Rightarrow> Inl (e, s)
      | Inr preds_list_bin \<Rightarrow>
     (case collapse targets_list of
        Inl e \<Rightarrow> Inl (e, s)
      | Inr targets_list_bin \<Rightarrow>
     (case py_truediv (accordance preds_list_bin targets_list_bin) (length preds_list) of
        Inl e \<Rightarrow> Inl (e, s)
      | Inr final_bin_acc1 \<Rightarrow>
          let labels = [''Sedentary'', ''Active''];
              s = emit Figure s;
              s = emit (Heatmap targets_list_bin preds_list_bin labels) s;
              s = emit (XLabel ''Predicted Labels'') s;
              s = emit (YLabel ''True Labels'') s;
              s = emit (Title (py_str plot_title @ ''(binary); Accuracy = '') final_bin_acc1) s;
              s = emit Show s;
              s = emit (SaveFig (plots_dir @ py_str plot_save_name @ ''_bin_confusion_matrix.png'')) s
          in Inr s)))"

text \<open>
  Lines 157 to 204. \<open>labels\<close> is \<open>None\<close> while the local variable is unbound; the
  keyword arguments of the heatmap call at 173 are the first to read it.
\<close>

definition confusion_plot :: "args \<Rightarrow> bool \<Rightarrow> string option \<Rightarrow> string option \<Rightarrow> state \<Rightarrow> (error \<times> state) + state" where
  "confusion_plot args RISE_collapse_labels plot_save_name plot_title s =
     (let preds_list = concat (preds s);
          targets_list = concat (targets s);
          labels = None;
          labels = (if data args = ''UCIHAR''
                    then Some [''Transition'', ''Walking'', ''Walking-upstairs'', ''Walking-downstairs'',
                               ''Sitting'', ''Standing'', ''Laying'']
                    else labels);
          labels = (if data args = ''RISE''
                    then Some [''sedentary'', ''standing'', ''stepping'', ''cycling'', ''primary_lying'',
                               ''secondary_lying'', ''seated_transport'']
                    else labels)
      in case py_truediv (accordance preds_list targets_list) (length preds_list) of
           Inl e \<Rightarrow> Inl (e, s)
         | Inr final_acc1 \<Rightarrow>
             let s = emit Figure s
             in (case labels of
                   None \<Rightarrow> Inl (UnboundLocalError ''labels'', s)
                 | Some labels \<Rightarrow>
                     let s = emit (Heatmap targets_list preds_list labels) s;
                         s = emit (XLabel ''Predicted Labels'') s;
                         s = emit (YLabel ''True Labels'') s;
                         s = emit (Title (py_str plot_title @ ''; Accuracy = '') final_acc1) s;
                         s = emit Show s;
                         s = emit (SaveFig (plots_dir @ py_str plot_save_name @ ''_confusion_matrix.png'')) s
                     in if RISE_collapse_labels
                        then collapse_plot preds_list targets_list plot_save_name plot_title s
                        else Inr s))"

text \<open>The function under the decorator: lines 110 to 149, the pass over the data.\<close>

definition eval_pass :: "eval_batch list \<Rightarrow> state \<Rightarrow> state" where
  "eval_pass data_loader s =
     (let s = s\<lparr>meters := []\<rparr>;
          s = (emit ModelEval s)\<lparr>training := False\<rparr>;
          s = s\<lparr>preds := [], targets := []\<rparr>;
          s = eval_loop 0 data_loader s;
          s = emit Synchronize s
      in s)"

text \<open>Lines 108 to 208.\<close>

definition evaluate_body :: "eval_batch list \<Rightarrow> args \<Rightarrow> bool \<Rightarrow> bool \<Rightarrow> string option \<Rightarrow> string option \<Rightarrow> state \<Rightarrow> (error + (string \<times> real) list) \<times> state" where
  "evaluate_body data_loader args confusion_matrix_plot RISE_collapse_labels plot_save_name plot_title s =
     (case print_summary (eval_pass data_loader s) of
        Inl (e, s) \<Rightarrow> (Inl e, s)
      | Inr s \<Rightarrow>
          if confusion_matrix_plot
          then (case confusion_plot args RISE_collapse_labels plot_save_name plot_title s of
                  Inl (e, s) \<Rightarrow> (Inl e, s)
                | Inr s \<Rightarrow> (global_avgs (meters s), s))
          else (global_avgs (meters s), s))"

text \<open>
  \<^verbatim>\<open>@torch.no_grad()\<close>: the body runs with the gradient mode off, and the mode of the
  caller is restored when the body ends, by \<^verbatim>\<open>return\<close> or by an exception.
\<close>

definition evaluate :: "eval_batch list \<Rightarrow> args \<Rightarrow> bool \<Rightarrow> bool \<Rightarrow> string option \<Rightarrow> string option \<Rightarrow> state \<Rightarrow> (error + (string \<times> real) list) \<times> state" where
  "evaluate data_loader args confusion_matrix_plot RISE_collapse_labels plot_save_name plot_title s0 =
     (let (r, s) = evaluate_body data_loader args confusion_matrix_plot RISE_collapse_labels
                     plot_save_name plot_title (s0\<lparr>calls := [], grad_enabled := False\<rparr>)
      in (r, s\<lparr>grad_enabled := grad_enabled s0\<rparr>))"

subsection \<open>Observations on a run\<close>

text \<open>The state a loop ends in, whether it ends by an error or not.\<close>

definition state_of :: "(error \<times> state) + state \<Rightarrow> state" where
  "state_of r = (case r of Inl (e, s) \<Rightarrow> s | Inr s \<Rightarrow> s)"

text \<open>The calls made on the optimizer: \<^verbatim>\<open>zero_grad\<close> and the loss scaler.\<close>

fun optimizer_call :: "event \<Rightarrow> bool" where
  "optimizer_call ZeroGrad = True"
| "optimizer_call (LossScaler k l u) = True"
| "optimizer_call e = False"

text \<open>
  In a sequence of calls, \<^verbatim>\<open>zero_grad\<close> is exactly the call that directly follows a loss
  scaler call with \<^verbatim>\<open>update_grad\<close> true; \<open>pending\<close> tells whether the call before the
  sequence was such a scaler call.
\<close>

fun zero_grad_follows_update :: "bool \<Rightarrow> event list \<Rightarrow> bool" where
  "zero_grad_follows_update pending [] = (\<not> pending)"
| "zero_grad_follows_update pending (e # es) =
     ((e = ZeroGrad) = pending \<and>
      zero_grad_follows_update (case e of LossScaler k l u \<Rightarrow> u | _ \<Rightarrow> False) es)"

text \<open>
  The cross-process reductions are \<^verbatim>\<open>misc.all_reduce_mean\<close> and
  \<^verbatim>\<open>metric_logger.synchronize_between_processes\<close>. The forward pass and the criterion are
  the calls that every iteration of either loop makes. \<open>reductions_after_loop\<close> holds of a
  sequence of calls in which no reduction is followed by a call of an iteration.
\<close>

fun reduction :: "event \<Rightarrow> bool" where
  "reduction (AllReduceMean k) = True"
| "reduction Synchronize = True"
| "reduction e = False"

fun batch_call :: "event \<Rightarrow> bool" where
  "batch_call (Forward k t g) = True"
| "batch_call (Criterion k) = True"
| "batch_call e = False"

fun reductions_after_loop :: "event list \<Rightarrow> bool" where
  "reductions_after_loop [] = True"
| "reductions_after_loop (e # es) =
     ((if reduction e then list_all (\<lambda>e'. \<not> batch_call e') es else True) \<and> reductions_after_loop es)"

text \<open>The calls that print or plot.\<close>

fun report_call :: "event \<Rightarrow> bool" where
  "report_call (Print p) = True"
| "report_call Figure = True"
| "report_call (Heatmap y_true y_pred labels) = True"
| "report_call (XLabel t) = True"
| "report_call (YLabel t) = True"
| "report_call (Title t v) = True"
| "report_call Show = True"
| "report_call (SaveFig path) = True"
| "report_call e = False"

text \<open>
  The weighted F1 score of a set of (prediction, target) pairs, as the library that
  \<^verbatim>\<open>f1_score(..., average='weighted')\<close> comes from documents it: the F1 of each class,
  \<open>2 tp / (2 tp + fp + fn)\<close> and 0 where that is undefined, averaged with the number of
  targets of the class as weight.
\<close>

definition class_f1 :: "int \<Rightarrow> (int \<times> int) list \<Rightarrow> real" where
  "class_f1 c xs =
     (let tp = length (filter (\<lambda>(p, t). p = c \<and> t = c) xs);
          predicted = length (filter (\<lambda>(p, t). p = c) xs);
          support = length (filter (\<lambda>(p, t). t = c) xs)
      in if predicted + support = 0 then 0 else 2 * real tp / real (predicted + support))"

definition weighted_f1 :: "(int \<times> int) list \<Rightarrow> real" where
  "weighted_f1 xs =
     sum_list (map (\<lambda>c. real (length (filter (\<lambda>(p, t). t = c) xs)) * class_f1 c xs)
                 (remdups (map snd xs)))
       / real (length xs)"

text \<open>A process in which nothing has run yet: the state the examples start from.\<close>

definition idle :: state where
  "idle = \<lparr>calls = [], meters = [], preds = [], targets = [], training = False,
            grad_enabled = True, grad_buffer = [], opt_steps = []\<rparr>"

section \<open>Properties\<close>

subsection \<open>The training loop\<close>

lemma state_of_simps [simp]: "state_of (Inl (e, s)) = s" "state_of (Inr s) = s"
  by (simp_all add: state_of_def)

lemma train_loop_append:
  "train_loop args ep mx lw n k (bs @ cs) s =
     (case train_loop args ep mx lw n k bs s of
        Inl es \<Rightarrow> Inl es
      | Inr s' \<Rightarrow> train_loop args ep mx lw n (k + length bs) cs s')"
  by (induction bs arbitrary: k s) (auto split: sum.splits)

lemma train_loop_snoc:
  "train_loop args ep mx lw n 0 (bs @ [b]) s =
     (case train_loop args ep mx lw n 0 bs s of
        Inl es \<Rightarrow> Inl es
      | Inr s' \<Rightarrow> train_step args ep mx lw n (length bs) b s')"
  by (simp add: train_loop_append split: sum.splits)

lemma train_step_Inr_iff:
  "(\<exists>s'. train_step args ep mx lw n k b s = Inr s') \<longleftrightarrow> accum_iter args \<noteq> 0 \<and> isfinite (loss_item b)"
  by (cases "loss_item b") (auto simp: train_step_def Let_def)

lemma train_step_Inl:
  assumes "train_step args ep mx lw n k b s = Inl (e, s')"
  shows "(accum_iter args = 0 \<and> e = ZeroDivisionError \<and> s' = s) \<or>
         (accum_iter args \<noteq> 0 \<and> \<not> isfinite (loss_item b) \<and> e = SystemExit 1 \<and>
          calls s' = calls s @ (if int k mod accum_iter args = 0 then [AdjustLearningRate k n ep] else [])
              @ (if mx then [Mixup k] else []) @ [Forward k (training s) (grad_enabled s), Criterion k,
                 Print (LossStop (loss_item b))])"
  using assms by (cases "loss_item b") (auto simp: train_step_def Let_def emit_def split: if_splits)

lemma train_step_calls:
  assumes "train_step args ep mx lw n k b s = Inr s'"
  shows "\<exists>x. loss_item b = Finite x \<and> calls s' = calls s
      @ (if int k mod accum_iter args = 0 then [AdjustLearningRate k n ep] else [])
      @ (if mx then [Mixup k] else [])
      @ [Forward k (training s) (grad_enabled s), Criterion k,
         LossScaler k (x / real_of_int (accum_iter args)) ((int k + 1) mod accum_iter args = 0)]
      @ (if (int k + 1) mod accum_iter args = 0 then [ZeroGrad] else [])
      @ [AllReduceMean k]
      @ (if lw \<noteq> None \<and> (int k + 1) mod accum_iter args = 0
         then [AddScalar ''loss'' x k n ep, AddScalar ''lr'' (foldl max 0 (param_group_lrs b)) k n ep] else [])"
  using assms by (cases "loss_item b") (auto simp: train_step_def Let_def emit_def loss_scaler_def zero_grad_def split: if_splits)

lemma train_step_frame:
  assumes "train_step args ep mx lw n k b s = Inr s'"
  shows "training s' = training s \<and> grad_enabled s' = grad_enabled s \<and> preds s' = preds s \<and> targets s' = targets s"
  using assms by (cases "loss_item b") (auto simp: train_step_def Let_def emit_def loss_scaler_def zero_grad_def split: if_splits)

lemma train_step_meters:
  assumes "train_step args ep mx lw n k b s = Inr s'"
  shows "\<exists>x. loss_item b = Finite x \<and> meters s' = logger_update ''lr'' (foldl max 0 (param_group_lrs b)) (logger_update ''loss'' x (meters s))"
  using assms by (cases "loss_item b") (auto simp: train_step_def Let_def emit_def loss_scaler_def zero_grad_def split: if_splits)

lemma train_step_grads:
  assumes "train_step args ep mx lw n k b s = Inr s'"
  shows "grad_buffer s' = (if (int k + 1) mod accum_iter args = 0 then [] else grad_buffer s @ [k]) \<and>
         opt_steps s' = (if (int k + 1) mod accum_iter args = 0 then opt_steps s @ [grad_buffer s @ [k]] else opt_steps s)"
  using assms by (cases "loss_item b") (auto simp: train_step_def Let_def emit_def loss_scaler_def zero_grad_def split: if_splits)

lemma train_setup_calls:
  "calls (train_setup lw s0) = ModelTrain # ZeroGrad # (case lw of None \<Rightarrow> [] | Some d \<Rightarrow> [Print (LogDir d)])"
  by (simp add: train_setup_def emit_def zero_grad_def Let_def split: option.splits)

lemma train_setup_fields:
  "meters (train_setup lw s0) = [(''lr'', [])]" "grad_buffer (train_setup lw s0) = []"
  "opt_steps (train_setup lw s0) = opt_steps s0" "training (train_setup lw s0) = True"
  "grad_enabled (train_setup lw s0) = grad_enabled s0"
  by (simp_all add: train_setup_def emit_def zero_grad_def Let_def split: option.splits)

text \<open>outcomes of the loop\<close>

lemma train_loop_Inl:
  "train_loop args ep mx lw n k bs s = Inl (e, s') \<Longrightarrow>
     (e = ZeroDivisionError \<and> accum_iter args = 0) \<or>
     (e = SystemExit 1 \<and> (\<exists>b\<in>set bs. \<not> isfinite (loss_item b)))"
proof (induction bs arbitrary: k s)
  case Nil
  then show ?case by simp
next
  case (Cons b bs)
  show ?case
  proof (cases "train_step args ep mx lw n k b s")
    case (Inl es)
    with Cons.prems have "train_step args ep mx lw n k b s = Inl (e, s')" by simp
    from train_step_Inl[OF this] show ?thesis by auto
  next
    case (Inr s1)
    with Cons.prems have "train_loop args ep mx lw n (Suc k) bs s1 = Inl (e, s')" by simp
    from Cons.IH[OF this] show ?thesis by auto
  qed
qed

lemma train_loop_exit:
  assumes "accum_iter args \<noteq> 0" "\<exists>b\<in>set bs. \<not> isfinite (loss_item b)"
  shows "\<exists>s'. train_loop args ep mx lw n k bs s = Inl (SystemExit 1, s')"
  using assms(2)
proof (induction bs arbitrary: k s)
  case Nil
  then show ?case by simp
next
  case (Cons b bs)
  show ?case
  proof (cases "isfinite (loss_item b)")
    case True
    with assms(1) obtain s1 where s1: "train_step args ep mx lw n k b s = Inr s1"
      using train_step_Inr_iff by blast
    from True Cons.prems have "\<exists>b\<in>set bs. \<not> isfinite (loss_item b)" by auto
    from Cons.IH[OF this] s1 show ?thesis by simp
  next
    case False
    with assms(1) show ?thesis
      by (cases "loss_item b") (auto simp: train_step_def Let_def)
  qed
qed

lemma train_loop_Inr_iff:
  "(\<exists>s'. train_loop args ep mx lw n k bs s = Inr s') \<longleftrightarrow>
     bs = [] \<or> (accum_iter args \<noteq> 0 \<and> (\<forall>b\<in>set bs. isfinite (loss_item b)))"
proof (induction bs arbitrary: k s)
  case Nil
  then show ?case by simp
next
  case (Cons b bs)
  show ?case
  proof (cases "train_step args ep mx lw n k b s")
    case (Inl es)
    moreover from Inl have "\<not> (accum_iter args \<noteq> 0 \<and> isfinite (loss_item b))"
      using train_step_Inr_iff[of args ep mx lw n k b s] by auto
    ultimately show ?thesis by auto
  next
    case (Inr s1)
    moreover from Inr have "accum_iter args \<noteq> 0 \<and> isfinite (loss_item b)"
      using train_step_Inr_iff[of args ep mx lw n k b s] by auto
    ultimately show ?thesis using Cons.IH[of "Suc k" s1] by auto
  qed
qed

text \<open>where the scaler and the criterion are called\<close>

lemma train_loop_scaler:
  "LossScaler j l u \<in> set (calls (state_of (train_loop args ep mx lw n k bs s))) \<Longrightarrow>
     LossScaler j l u \<in> set (calls s) \<or>
     (k \<le> j \<and> j < k + length bs \<and>
      (\<exists>x. loss_item (bs ! (j - k)) = Finite x \<and> l = x / real_of_int (accum_iter args)) \<and>
      u = ((int j + 1) mod accum_iter args = 0))"
proof (induction bs arbitrary: k s)
  case Nil
  then show ?case by simp
next
  case (Cons b bs)
  show ?case
  proof (cases "train_step args ep mx lw n k b s")
    case (Inl es)
    obtain e s1 where es: "es = (e, s1)" by (cases es)
    from train_step_Inl[OF Inl[unfolded es]] Cons.prems Inl es show ?thesis
      by (auto split: if_splits)
  next
    case (Inr s1)
    with Cons.prems have "LossScaler j l u \<in> set (calls (state_of (train_loop args ep mx lw n (Suc k) bs s1)))"
      by simp
    from Cons.IH[OF this] have
      "LossScaler j l u \<in> set (calls s1) \<or>
       (Suc k \<le> j \<and> j < Suc k + length bs \<and>
        (\<exists>x. loss_item (bs ! (j - Suc k)) = Finite x \<and> l = x / real_of_int (accum_iter args)) \<and>
        u = ((int j + 1) mod accum_iter args = 0))" .
    then show ?thesis
    proof
      assume "LossScaler j l u \<in> set (calls s1)"
      with train_step_calls[OF Inr] show ?thesis by (auto split: if_splits)
    next
      assume a: "Suc k \<le> j \<and> j < Suc k + length bs \<and>
        (\<exists>x. loss_item (bs ! (j - Suc k)) = Finite x \<and> l = x / real_of_int (accum_iter args)) \<and>
        u = ((int j + 1) mod accum_iter args = 0)"
      then have "j - k = Suc (j - Suc k)" by arith
      then have "(b # bs) ! (j - k) = bs ! (j - Suc k)" by simp
      with a show ?thesis by auto
    qed
  qed
qed

lemma train_loop_criterion:
  "Criterion j \<in> set (calls (state_of (train_loop args ep mx lw n k bs s))) \<Longrightarrow>
     Criterion j \<in> set (calls s) \<or> (k \<le> j \<and> j < k + length bs)"
proof (induction bs arbitrary: k s)
  case Nil
  then show ?case by simp
next
  case (Cons b bs)
  show ?case
  proof (cases "train_step args ep mx lw n k b s")
    case (Inl es)
    obtain e s1 where es: "es = (e, s1)" by (cases es)
    from train_step_Inl[OF Inl[unfolded es]] Cons.prems Inl es show ?thesis
      by (auto split: if_splits)
  next
    case (Inr s1)
    with Cons.prems have "Criterion j \<in> set (calls (state_of (train_loop args ep mx lw n (Suc k) bs s1)))"
      by simp
    from Cons.IH[OF this] train_step_calls[OF Inr] show ?thesis
      by (auto split: if_splits)
  qed
qed

lemma global_avgs_Inl: "global_avgs ms = Inl e \<Longrightarrow> e = ZeroDivisionError"
  by (induction ms arbitrary: e rule: global_avgs.induct)
     (auto simp: global_avg_def split: sum.splits if_splits)

lemma train_one_epoch_Inl:
  assumes "train_one_epoch bs ep mx lw args s0 = (Inl e, s')"
  shows "e = ZeroDivisionError \<or> (e = SystemExit 1 \<and> (\<exists>b\<in>set bs. \<not> isfinite (loss_item b)))"
proof (cases "train_loop args ep mx lw (length bs) 0 bs (train_setup lw s0)")
  case (Inl es)
  obtain e1 s1 where es: "es = (e1, s1)" by (cases es)
  with Inl assms have "e1 = e" by (simp add: train_one_epoch_def)
  with train_loop_Inl[OF Inl[unfolded es]] show ?thesis by auto
next
  case (Inr s1)
  with assms have "global_avgs (meters s1) = Inl e"
    by (simp add: train_one_epoch_def Let_def emit_def)
  then show ?thesis by (simp add: global_avgs_Inl)
qed

lemma train_loop_last:
  assumes crit: "Criterion j \<in> set (calls (state_of (train_loop args ep mx lw n 0 bs s)))"
    and fresh: "Criterion j \<notin> set (calls s)"
    and j: "j < length bs" and nonfin: "\<not> isfinite (loss_item (bs ! j))"
  shows "\<exists>s'. train_loop args ep mx lw n 0 bs s = Inl (SystemExit 1, s') \<and>
              last (calls s') = Print (LossStop (loss_item (bs ! j)))"
proof -
  have len: "length (take j bs) = j" using j by simp
  have split: "train_loop args ep mx lw n 0 bs s =
      (case train_loop args ep mx lw n 0 (take j bs) s of
         Inl es \<Rightarrow> Inl es
       | Inr s1 \<Rightarrow> train_loop args ep mx lw n j (bs ! j # drop (Suc j) bs) s1)"
  proof -
    have "train_loop args ep mx lw n 0 (take j bs @ (bs ! j # drop (Suc j) bs)) s =
      (case train_loop args ep mx lw n 0 (take j bs) s of
         Inl es \<Rightarrow> Inl es
       | Inr s1 \<Rightarrow> train_loop args ep mx lw n j (bs ! j # drop (Suc j) bs) s1)"
      by (simp only: train_loop_append len add_0)
    then show ?thesis using id_take_nth_drop[OF j, symmetric] by simp
  qed
  have before: "Criterion j \<notin> set (calls (state_of (train_loop args ep mx lw n 0 (take j bs) s)))"
    using train_loop_criterion[of j args ep mx lw n 0 "take j bs" s] fresh len by auto
  show ?thesis
  proof (cases "train_loop args ep mx lw n 0 (take j bs) s")
    case (Inl es)
    with split crit before show ?thesis by simp
  next
    case (Inr s1)
    from nonfin have "\<not> (\<exists>s2. train_step args ep mx lw n j (bs ! j) s1 = Inr s2)"
      by (simp add: train_step_Inr_iff)
    then obtain e s2 where step: "train_step args ep mx lw n j (bs ! j) s1 = Inl (e, s2)"
      by (cases "train_step args ep mx lw n j (bs ! j) s1") auto
    with split Inr have whole: "train_loop args ep mx lw n 0 bs s = Inl (e, s2)" by simp
    from train_step_Inl[OF step] show ?thesis
    proof
      assume "accum_iter args = 0 \<and> e = ZeroDivisionError \<and> s2 = s1"
      with whole crit before Inr show ?thesis by simp
    next
      assume "accum_iter args \<noteq> 0 \<and> \<not> isfinite (loss_item (bs ! j)) \<and> e = SystemExit 1 \<and>
          calls s2 = calls s1 @ (if int j mod accum_iter args = 0 then [AdjustLearningRate j n ep] else [])
              @ (if mx then [Mixup j] else []) @ [Forward j (training s1) (grad_enabled s1), Criterion j,
                 Print (LossStop (loss_item (bs ! j)))]"
      with whole show ?thesis by simp
    qed
  qed
qed

lemma print_summary_Inl: "print_summary s = Inl (e, s') \<Longrightarrow> e = ZeroDivisionError"
  by (auto simp: print_summary_def meter_global_avg_def global_avg_def Let_def
           split: sum.splits prod.splits if_splits)

lemma collapse_Inl: "collapse xs = Inl e \<Longrightarrow> \<exists>x. e = KeyError x"
  by (induction xs arbitrary: e) (auto split: option.splits sum.splits)

lemma collapse_plot_Inl:
  "collapse_plot ps ts name title s = Inl (e, s') \<Longrightarrow> e = ZeroDivisionError \<or> (\<exists>x. e = KeyError x)"
  by (auto simp: collapse_plot_def py_truediv_def Let_def dest: collapse_Inl split: sum.splits if_splits)

lemma confusion_plot_Inl:
  "confusion_plot args col name title s = Inl (e, s') \<Longrightarrow>
     e = ZeroDivisionError \<or> e = UnboundLocalError ''labels'' \<or> (\<exists>x. e = KeyError x)"
  by (auto simp: confusion_plot_def py_truediv_def Let_def dest: collapse_plot_Inl
           split: sum.splits if_splits option.splits)

lemma evaluate_Inl:
  assumes "fst (evaluate bs args plot col name title s0) = Inl e"
  shows "e = ZeroDivisionError \<or> e = UnboundLocalError ''labels'' \<or> (\<exists>x. e = KeyError x)"
  using assms
  by (auto simp: evaluate_def evaluate_body_def
           dest: print_summary_Inl confusion_plot_Inl global_avgs_Inl
           split: sum.splits prod.splits if_splits)

lemma example_exit:
  "train_one_epoch [\<lparr>loss_item = Finite 1, param_group_lrs = [1 / 10]\<rparr>,
                    \<lparr>loss_item = NaN, param_group_lrs = [1 / 5]\<rparr>,
                    \<lparr>loss_item = Finite 2, param_group_lrs = [1 / 5]\<rparr>]
      0 False None \<lparr>accum_iter = 2, data = ''RISE''\<rparr> idle
   = (Inl (SystemExit 1),
      \<lparr>calls = [ModelTrain, ZeroGrad, AdjustLearningRate 0 3 0, Forward 0 True True, Criterion 0,
                LossScaler 0 (1 / 2) False, AllReduceMean 0, Forward 1 True True, Criterion 1,
                Print (LossStop NaN)],
       meters = [(''lr'', [(1 / 10, 1)]), (''loss'', [(1, 1)])], preds = [], targets = [],
       training = True, grad_enabled = True, grad_buffer = [0], opt_steps = []\<rparr>)"
  by (simp add: train_one_epoch_def train_setup_def train_step_def loss_scaler_def zero_grad_def
        emit_def logger_update_def idle_def Let_def)

text \<open>
  C1. In \<^verbatim>\<open>train_one_epoch\<close>, a batch whose loss value is not finite ends the process with
  \<^verbatim>\<open>sys.exit(1)\<close>, before the loss scaler is called for that batch: the last call made is
  the message printed ahead of the exit, right after the criterion computed the loss. The
  loss of a batch exists once the criterion has run for it; with \<^verbatim>\<open>accum_iter = 0\<close> the
  modulus at line 48 raises before that, for the first batch. An exit status comes from
  this path only: the status is 1, some batch has a non-finite loss, and \<^verbatim>\<open>evaluate\<close>
  never exits.
\<close>

theorem train_one_epoch_nonfinite_loss_exits:
  assumes run: "train_one_epoch data_loader epoch mixup_fn log_writer args s0 = (r, s')"
  shows "(accum_iter args \<noteq> 0 \<and> k < length data_loader \<and> \<not> isfinite (loss_item (data_loader ! k)) \<longrightarrow>
            r = Inl (SystemExit 1) \<and> (\<forall>l u. LossScaler k l u \<notin> set (calls s'))) \<and>
         (k < length data_loader \<and> \<not> isfinite (loss_item (data_loader ! k)) \<and> Criterion k \<in> set (calls s') \<longrightarrow>
            r = Inl (SystemExit 1) \<and> last (calls s') = Print (LossStop (loss_item (data_loader ! k)))) \<and>
         (r = Inl (SystemExit c) \<longrightarrow> c = 1 \<and> (\<exists>b\<in>set data_loader. \<not> isfinite (loss_item b))) \<and>
         fst (evaluate eval_loader eval_args plot collapse_labels name title s1) \<noteq> Inl (SystemExit c')"
proof -
  let ?loop = "train_loop args epoch mixup_fn log_writer (length data_loader) 0 data_loader
                 (train_setup log_writer s0)"
  have no_crit: "Criterion k \<notin> set (calls (train_setup log_writer s0))"
    by (simp add: train_setup_calls split: option.splits)
  have no_scaler: "LossScaler k l u \<notin> set (calls (train_setup log_writer s0))" for l u
    by (simp add: train_setup_calls split: option.splits)
  have exit_state: "s' = state_of ?loop" if "?loop = Inl (e, s1)" for e s1
    using run that by (simp add: train_one_epoch_def)
  have first: "r = Inl (SystemExit 1) \<and> (\<forall>l u. LossScaler k l u \<notin> set (calls s'))"
    if a: "accum_iter args \<noteq> 0" and k: "k < length data_loader"
      and nonfin: "\<not> isfinite (loss_item (data_loader ! k))"
  proof -
    from k nonfin have "\<exists>b\<in>set data_loader. \<not> isfinite (loss_item b)"
      using nth_mem by blast
    from train_loop_exit[OF a this] obtain s1 where loop: "?loop = Inl (SystemExit 1, s1)"
      by blast
    with run have r: "r = Inl (SystemExit 1)" and s': "s' = state_of ?loop"
      by (simp_all add: train_one_epoch_def)
    have "LossScaler k l u \<notin> set (calls s')" for l u
    proof
      assume "LossScaler k l u \<in> set (calls s')"
      with s' have "LossScaler k l u \<in> set (calls (state_of ?loop))" by simp
      from train_loop_scaler[OF this] no_scaler nonfin show False by auto
    qed
    with r show ?thesis by simp
  qed
  have second: "r = Inl (SystemExit 1) \<and> last (calls s') = Print (LossStop (loss_item (data_loader ! k)))"
    if k: "k < length data_loader" and nonfin: "\<not> isfinite (loss_item (data_loader ! k))"
      and crit: "Criterion k \<in> set (calls s')"
  proof -
    have "Criterion k \<in> set (calls (state_of ?loop))"
    proof (cases ?loop)
      case (Inl es)
      then show ?thesis using exit_state[of "fst es" "snd es"] crit by simp
    next
      case (Inr s1)
      with run have "calls s' = calls s1 @ [Synchronize, Print AveragedStats]"
        by (auto simp: train_one_epoch_def Let_def emit_def)
      with crit Inr show ?thesis by simp
    qed
    from train_loop_last[OF this no_crit k nonfin] obtain s1 where
      "?loop = Inl (SystemExit 1, s1)" "last (calls s1) = Print (LossStop (loss_item (data_loader ! k)))"
      by blast
    with run show ?thesis by (simp add: train_one_epoch_def)
  qed
  have third: "c = 1 \<and> (\<exists>b\<in>set data_loader. \<not> isfinite (loss_item b))" if "r = Inl (SystemExit c)"
    using train_one_epoch_Inl[OF run[unfolded that]] by simp
  have fourth: "fst (evaluate eval_loader eval_args plot collapse_labels name title s1) \<noteq> Inl (SystemExit c')"
    using evaluate_Inl[of eval_loader eval_args plot collapse_labels name title s1 "SystemExit c'"]
    by auto
  from first second third fourth show ?thesis by blast
qed


theorem train_one_epoch_nonfinite_loss_exits_witness:
  "accum_iter \<lparr>accum_iter = 2, data = ''RISE''\<rparr> \<noteq> 0 \<and>
   \<not> isfinite (loss_item ([\<lparr>loss_item = Finite 1, param_group_lrs = [1 / 10]\<rparr>,
                              \<lparr>loss_item = NaN, param_group_lrs = [1 / 5]\<rparr>,
                              \<lparr>loss_item = Finite 2, param_group_lrs = [1 / 5]\<rparr>] ! 1)) \<and>
   fst (train_one_epoch [\<lparr>loss_item = Finite 1, param_group_lrs = [1 / 10]\<rparr>,
                         \<lparr>loss_item = NaN, param_group_lrs = [1 / 5]\<rparr>,
                         \<lparr>loss_item = Finite 2, param_group_lrs = [1 / 5]\<rparr>]
          0 False None \<lparr>accum_iter = 2, data = ''RISE''\<rparr> idle) = Inl (SystemExit 1) \<and>
   (\<forall>l u. LossScaler 1 l u \<notin> set (calls (snd (train_one_epoch
                        [\<lparr>loss_item = Finite 1, param_group_lrs = [1 / 10]\<rparr>,
                         \<lparr>loss_item = NaN, param_group_lrs = [1 / 5]\<rparr>,
                         \<lparr>loss_item = Finite 2, param_group_lrs = [1 / 5]\<rparr>]
          0 False None \<lparr>accum_iter = 2, data = ''RISE''\<rparr> idle)))) \<and>
   last (calls (snd (train_one_epoch
                        [\<lparr>loss_item = Finite 1, param_group_lrs = [1 / 10]\<rparr>,
                         \<lparr>loss_item = NaN, param_group_lrs = [1 / 5]\<rparr>,
                         \<lparr>loss_item = Finite 2, param_group_lrs = [1 / 5]\<rparr>]
          0 False None \<lparr>accum_iter = 2, data = ''RISE''\<rparr> idle))) = Print (LossStop NaN)"
  using train_one_epoch_nonfinite_loss_exits[OF example_exit, where k = 1 and c = 1]
  by (simp add: example_exit)

lemma zero_grad_follows_update_append:
  "zero_grad_follows_update p xs \<Longrightarrow> zero_grad_follows_update False ys \<Longrightarrow>
     zero_grad_follows_update p (xs @ ys)"
  by (induction xs arbitrary: p) auto

lemma train_step_cadence:
  "\<exists>ys. calls (state_of (train_step args ep mx lw n k b s)) = calls s @ ys \<and>
        zero_grad_follows_update False ys"
proof (cases "train_step args ep mx lw n k b s")
  case (Inl es)
  obtain e s1 where es: "es = (e, s1)" by (cases es)
  from train_step_Inl[OF Inl[unfolded es]] Inl es show ?thesis
    by (auto split: if_splits)
next
  case (Inr s1)
  from train_step_calls[OF Inr] Inr show ?thesis
    by (auto split: if_splits)
qed

lemma train_loop_cadence:
  "\<exists>ys. calls (state_of (train_loop args ep mx lw n k bs s)) = calls s @ ys \<and>
        zero_grad_follows_update False ys"
proof (induction bs arbitrary: k s)
  case Nil
  then show ?case by simp
next
  case (Cons b bs)
  obtain ys where ys: "calls (state_of (train_step args ep mx lw n k b s)) = calls s @ ys"
      "zero_grad_follows_update False ys"
    using train_step_cadence by blast
  show ?case
  proof (cases "train_step args ep mx lw n k b s")
    case (Inl es)
    with ys show ?thesis by auto
  next
    case (Inr s1)
    from Cons.IH[of "Suc k" s1] obtain zs where
      zs: "calls (state_of (train_loop args ep mx lw n (Suc k) bs s1)) = calls s1 @ zs"
        "zero_grad_follows_update False zs" by blast
    from ys Inr have "calls s1 = calls s @ ys" by simp
    with zs Inr have "calls (state_of (train_loop args ep mx lw n k (b # bs) s)) = calls s @ (ys @ zs)"
      by simp
    moreover have "zero_grad_follows_update False (ys @ zs)"
      using ys(2) zs(2) by (rule zero_grad_follows_update_append)
    ultimately show ?thesis by blast
  qed
qed

lemma train_loop_optimizer_calls:
  assumes "train_loop args ep mx lw n k bs s = Inr s'" "map loss_item bs = map Finite xs"
  shows "filter optimizer_call (calls s') = filter optimizer_call (calls s) @
     concat (map (\<lambda>(i, x). LossScaler i (x / real_of_int (accum_iter args)) ((int i + 1) mod accum_iter args = 0)
                    # (if (int i + 1) mod accum_iter args = 0 then [ZeroGrad] else []))
               (enumerate k xs))"
  using assms
proof (induction bs arbitrary: k s xs)
  case Nil
  then show ?case by simp
next
  case (Cons b bs)
  from Cons.prems(2) obtain x xs' where xs: "xs = x # xs'" "loss_item b = Finite x"
      "map loss_item bs = map Finite xs'" by (cases xs) auto
  from Cons.prems(1) obtain s1 where step: "train_step args ep mx lw n k b s = Inr s1"
    and rest: "train_loop args ep mx lw n (Suc k) bs s1 = Inr s'"
    by (auto split: sum.splits)
  from train_step_calls[OF step] xs(2)
  have "filter optimizer_call (calls s1) = filter optimizer_call (calls s) @
      (LossScaler k (x / real_of_int (accum_iter args)) ((int k + 1) mod accum_iter args = 0)
         # (if (int k + 1) mod accum_iter args = 0 then [ZeroGrad] else []))"
    by (auto split: if_splits)
  with Cons.IH[OF rest xs(3)] xs(1) show ?case by simp
qed

lemma example_epoch:
  "train_one_epoch [\<lparr>loss_item = Finite 1, param_group_lrs = [1 / 10]\<rparr>,
                    \<lparr>loss_item = Finite 3, param_group_lrs = [1 / 5]\<rparr>,
                    \<lparr>loss_item = Finite 2, param_group_lrs = [1 / 5]\<rparr>]
      0 False (Some ''out'') \<lparr>accum_iter = 2, data = ''RISE''\<rparr> idle
   = (Inr [(''lr'', 1 / 6), (''loss'', 2)],
      \<lparr>calls = [ModelTrain, ZeroGrad, Print (LogDir ''out''), AdjustLearningRate 0 3 0,
                Forward 0 True True, Criterion 0, LossScaler 0 (1 / 2) False, AllReduceMean 0,
                Forward 1 True True, Criterion 1, LossScaler 1 (3 / 2) True, ZeroGrad, AllReduceMean 1,
                AddScalar ''loss'' 3 1 3 0, AddScalar ''lr'' (1 / 5) 1 3 0,
                AdjustLearningRate 2 3 0, Forward 2 True True, Criterion 2, LossScaler 2 1 False,
                AllReduceMean 2, Synchronize, Print AveragedStats],
       meters = [(''lr'', [(1 / 10, 1), (1 / 5, 1), (1 / 5, 1)]), (''loss'', [(1, 1), (3, 1), (2, 1)])],
       preds = [], targets = [], training = True, grad_enabled = True, grad_buffer = [2],
       opt_steps = [[0, 1]]\<rparr>)"
  by (simp add: train_one_epoch_def train_setup_def train_step_def loss_scaler_def zero_grad_def
        emit_def logger_update_def global_avg_def count_def total_def idle_def Let_def)

text \<open>
  C2. Gradient accumulation in \<^verbatim>\<open>train_one_epoch\<close>. In every run, \<^verbatim>\<open>optimizer.zero_grad()\<close>
  is called once before the loop and from then on exactly as the call that directly
  follows a loss scaler call with \<^verbatim>\<open>update_grad\<close> true. In a run over batches with finite
  losses, the optimizer sees, after the first \<^verbatim>\<open>zero_grad\<close>, one loss scaler call per
  batch, in order, with the batch's loss divided by \<^verbatim>\<open>accum_iter\<close> and with \<^verbatim>\<open>update_grad\<close>
  true exactly when \<^verbatim>\<open>(data_iter_step + 1) % accum_iter == 0\<close>.
\<close>

theorem train_one_epoch_gradient_accumulation:
  assumes run: "train_one_epoch data_loader epoch mixup_fn log_writer args s0 = (r, s')"
  shows "(\<exists>rest. calls s' = ModelTrain # ZeroGrad # rest \<and> zero_grad_follows_update False rest) \<and>
         (accum_iter args \<noteq> 0 \<and> map loss_item data_loader = map Finite losses \<longrightarrow>
            filter optimizer_call (calls s') =
              ZeroGrad # concat (map (\<lambda>(k, loss).
                  LossScaler k (loss / real_of_int (accum_iter args)) ((int k + 1) mod accum_iter args = 0)
                    # (if (int k + 1) mod accum_iter args = 0 then [ZeroGrad] else []))
                (enumerate 0 losses)))"
proof -
  let ?loop = "train_loop args epoch mixup_fn log_writer (length data_loader) 0 data_loader
                 (train_setup log_writer s0)"
  obtain ys where ys: "calls (state_of ?loop) = calls (train_setup log_writer s0) @ ys"
      "zero_grad_follows_update False ys"
    using train_loop_cadence by blast
  have tail: "\<exists>zs. calls s' = calls (state_of ?loop) @ zs \<and> zero_grad_follows_update False zs"
  proof (cases ?loop)
    case (Inl es)
    with run show ?thesis by (cases es) (simp add: train_one_epoch_def)
  next
    case (Inr s1)
    with run have "calls s' = calls (state_of ?loop) @ [Synchronize, Print AveragedStats]"
      by (auto simp: train_one_epoch_def Let_def emit_def)
    then show ?thesis by simp
  qed
  then obtain zs where zs: "calls s' = calls (state_of ?loop) @ zs" "zero_grad_follows_update False zs"
    by blast
  let ?pre = "case log_writer of None \<Rightarrow> [] | Some d \<Rightarrow> [Print (LogDir d)]"
  have "zero_grad_follows_update False ?pre" by (simp split: option.splits)
  then have "zero_grad_follows_update False (?pre @ ys @ zs)"
    using ys(2) zs(2) by (intro zero_grad_follows_update_append)
  moreover have "calls s' = ModelTrain # ZeroGrad # (?pre @ ys @ zs)"
    using ys(1) zs(1) by (simp add: train_setup_calls)
  ultimately have first: "\<exists>rest. calls s' = ModelTrain # ZeroGrad # rest \<and> zero_grad_follows_update False rest"
    by blast
  have second: "filter optimizer_call (calls s') =
              ZeroGrad # concat (map (\<lambda>(k, loss).
                  LossScaler k (loss / real_of_int (accum_iter args)) ((int k + 1) mod accum_iter args = 0)
                    # (if (int k + 1) mod accum_iter args = 0 then [ZeroGrad] else []))
                (enumerate 0 losses))"
    if a: "accum_iter args \<noteq> 0" and fin: "map loss_item data_loader = map Finite losses"
  proof -
    have "\<forall>b\<in>set data_loader. isfinite (loss_item b)"
    proof
      fix b assume "b \<in> set data_loader"
      then have "loss_item b \<in> set (map Finite losses)" using fin by (metis image_eqI set_map)
      then show "isfinite (loss_item b)" by auto
    qed
    with a obtain s1 where loop: "?loop = Inr s1" using train_loop_Inr_iff by blast
    with run have "calls s' = calls s1 @ [Synchronize, Print AveragedStats]"
      by (auto simp: train_one_epoch_def Let_def emit_def)
    with train_loop_optimizer_calls[OF loop fin] show ?thesis
      by (simp add: train_setup_calls split: option.splits)
  qed
  from first second show ?thesis by blast
qed

theorem train_one_epoch_gradient_accumulation_witness:
  "accum_iter \<lparr>accum_iter = 2, data = ''RISE''\<rparr> \<noteq> 0 \<and>
   filter optimizer_call (calls (snd (train_one_epoch
       [\<lparr>loss_item = Finite 1, param_group_lrs = [1 / 10]\<rparr>,
        \<lparr>loss_item = Finite 3, param_group_lrs = [1 / 5]\<rparr>,
        \<lparr>loss_item = Finite 2, param_group_lrs = [1 / 5]\<rparr>]
       0 False (Some ''out'') \<lparr>accum_iter = 2, data = ''RISE''\<rparr> idle)))
     = [ZeroGrad, LossScaler 0 (1 / 2) False, LossScaler 1 (3 / 2) True, ZeroGrad, LossScaler 2 1 False]"
  using train_one_epoch_gradient_accumulation[OF example_epoch, where losses = "[1, 3, 2]"]
  by (simp add: example_epoch)

lemma accum_mod:
  assumes "a \<noteq> 0"
  shows "((int k + 1) mod a = 0) = (Suc k mod nat \<bar>a\<bar> = 0)"
proof -
  have "((int k + 1) mod a = 0) = (a dvd int (Suc k))"
    by (simp add: mod_eq_0_iff_dvd add.commute)
  also have "\<dots> = (\<bar>a\<bar> dvd int (Suc k))" by simp
  also have "\<dots> = (int (nat \<bar>a\<bar>) dvd int (Suc k))" by simp
  also have "\<dots> = (nat \<bar>a\<bar> dvd Suc k)" by (rule int_dvd_int_iff)
  also have "\<dots> = (Suc k mod nat \<bar>a\<bar> = 0)" by (simp add: mod_eq_0_iff_dvd)
  finally show ?thesis .
qed

lemma full_group:
  assumes "Suc k mod m = 0" "0 < m"
  shows "[k - k mod m ..< k] @ [k] = [k div m * m ..< k div m * m + m]"
proof -
  from assms have km: "Suc (k mod m) = m"
    by (metis mod_Suc nat.distinct(1))
  have "k div m * m + k mod m = k" by simp
  with km have "k div m * m + m = Suc k" by arith
  moreover have "k - k mod m = k div m * m" by (simp add: minus_mod_eq_div_mult)
  moreover have "k - k mod m \<le> k" by simp
  ultimately show ?thesis by (simp add: upt_Suc_append del: upt_Suc)
qed

lemma train_loop_grads:
  assumes "train_loop args ep mx lw n 0 bs s = Inr s'" "grad_buffer s = []"
  shows "grad_buffer s' = [length bs - length bs mod nat \<bar>accum_iter args\<bar> ..< length bs] \<and>
         opt_steps s' = opt_steps s @
           map (\<lambda>g. [g * nat \<bar>accum_iter args\<bar> ..< g * nat \<bar>accum_iter args\<bar> + nat \<bar>accum_iter args\<bar>])
             [0..<length bs div nat \<bar>accum_iter args\<bar>]"
  using assms(1)
proof (induction bs arbitrary: s' rule: rev_induct)
  case Nil
  with assms(2) show ?case by simp
next
  case (snoc b bs)
  let ?m = "nat \<bar>accum_iter args\<bar>"
  let ?k = "length bs"
  from snoc.prems obtain s1 where loop: "train_loop args ep mx lw n 0 bs s = Inr s1"
    and step: "train_step args ep mx lw n ?k b s1 = Inr s'"
    by (auto simp: train_loop_snoc split: sum.splits)
  from step have a: "accum_iter args \<noteq> 0" using train_step_Inr_iff by blast
  then have m: "0 < ?m" by simp
  note IH = snoc.IH[OF loop]
  note g = train_step_grads[OF step, unfolded accum_mod[OF a]]
  show ?case
  proof (cases "Suc ?k mod ?m = 0")
    case True
    then have d: "Suc ?k div ?m = Suc (?k div ?m)" by (simp add: div_Suc)
    from True g have buf: "grad_buffer s' = []"
      and steps: "opt_steps s' = opt_steps s1 @ [grad_buffer s1 @ [?k]]" by simp_all
    have "[0..<Suc ?k div ?m] = [0..<?k div ?m] @ [?k div ?m]" by (simp add: d)
    moreover have "grad_buffer s1 @ [?k] = [?k div ?m * ?m ..< ?k div ?m * ?m + ?m]"
      using IH full_group[OF True m] by simp
    moreover have "[length (bs @ [b]) - length (bs @ [b]) mod ?m ..< length (bs @ [b])] = []"
      using True by simp
    ultimately show ?thesis using buf steps IH by simp
  next
    case False
    then have "Suc ?k mod ?m = Suc (?k mod ?m)" by (simp add: mod_Suc split: if_splits)
    moreover from False have "Suc ?k div ?m = ?k div ?m" by (simp add: div_Suc)
    moreover have "?k mod ?m \<le> ?k" by simp
    ultimately show ?thesis using False g IH
      by (simp add: upt_Suc_append Suc_diff_le del: upt_Suc)
  qed
qed

lemma last_group_open:
  assumes "n div m * m \<le> k" "k < n" "0 < (m::nat)"
  shows "Suc k mod m \<noteq> 0"
proof
  assume "Suc k mod m = 0"
  then have "m dvd Suc k" by (simp add: mod_eq_0_iff_dvd)
  then obtain q where "Suc k = m * q" by (auto elim: dvdE)
  then have q: "Suc k = q * m" by (simp only: mult.commute)
  with assms(2) have "q * m \<le> n" by simp
  then have "q \<le> n div m" using assms(3) by (simp add: less_eq_div_iff_mult_less_eq)
  then have "q * m \<le> n div m * m" by simp
  with assms(1) q show False by simp
qed

text \<open>
  C9. When \<^verbatim>\<open>train_one_epoch\<close> returns and the number of batches is not a multiple of
  \<^verbatim>\<open>accum_iter\<close>, the batches of the last, partial group (the last
  \<open>len mod \<bar>accum_iter\<bar>\<close> ones, \<open>len mod accum_iter\<close> for a positive \<^verbatim>\<open>accum_iter\<close>) were
  passed to the loss scaler with \<^verbatim>\<open>update_grad\<close> false; their gradients are what the
  gradient buffers hold on return, and the optimizer updates of the call applied full
  groups of earlier batches only.
\<close>

theorem train_one_epoch_partial_group_left:
  assumes run: "train_one_epoch data_loader epoch mixup_fn log_writer args s0 = (Inr d, s')"
    and partial: "\<not> accum_iter args dvd int (length data_loader)"
  shows "grad_buffer s' =
           [length data_loader - length data_loader mod nat \<bar>accum_iter args\<bar> ..< length data_loader] \<and>
         grad_buffer s' \<noteq> [] \<and>
         (\<forall>k l u. LossScaler k l u \<in> set (calls s') \<and> k \<in> set (grad_buffer s') \<longrightarrow> \<not> u) \<and>
         opt_steps s' = opt_steps s0 @
           map (\<lambda>g. [g * nat \<bar>accum_iter args\<bar> ..< g * nat \<bar>accum_iter args\<bar> + nat \<bar>accum_iter args\<bar>])
             [0..<length data_loader div nat \<bar>accum_iter args\<bar>] \<and>
         (\<forall>g < length data_loader div nat \<bar>accum_iter args\<bar>.
            set [g * nat \<bar>accum_iter args\<bar> ..< g * nat \<bar>accum_iter args\<bar> + nat \<bar>accum_iter args\<bar>]
              \<inter> set (grad_buffer s') = {})"
proof -
  let ?m = "nat \<bar>accum_iter args\<bar>"
  let ?n = "length data_loader"
  let ?loop = "train_loop args epoch mixup_fn log_writer ?n 0 data_loader (train_setup log_writer s0)"
  from run obtain s1 where loop: "?loop = Inr s1"
    and s': "s' = s1\<lparr>calls := calls s1 @ [Synchronize, Print AveragedStats]\<rparr>"
    by (auto simp: train_one_epoch_def Let_def emit_def split: sum.splits prod.splits)
  from partial have ne: "data_loader \<noteq> []" by auto
  with loop have a: "accum_iter args \<noteq> 0" using train_loop_Inr_iff by blast
  then have m: "0 < ?m" by simp
  from partial have "\<not> \<bar>accum_iter args\<bar> dvd int ?n" by simp
  then have "\<not> int ?m dvd int ?n" by simp
  then have "\<not> ?m dvd ?n" using int_dvd_int_iff by blast
  then have "?n mod ?m \<noteq> 0" using mod_eq_0_iff_dvd by blast
  then have r: "0 < ?n mod ?m" by blast
  from train_loop_grads[OF loop] s'
  have buf: "grad_buffer s' = [?n - ?n mod ?m ..< ?n]"
    and steps: "opt_steps s' = opt_steps s0 @ map (\<lambda>g. [g * ?m ..< g * ?m + ?m]) [0..<?n div ?m]"
    by (simp_all add: train_setup_fields)
  have low: "?n - ?n mod ?m = ?n div ?m * ?m" by (simp add: minus_mod_eq_div_mult)
  have "?n mod ?m \<le> ?n" by simp
  with r have "?n - ?n mod ?m < ?n" by arith
  then have nonempty: "grad_buffer s' \<noteq> []" unfolding buf using ne by simp
  have open_calls: "\<not> u" if "LossScaler k l u \<in> set (calls s')" "k \<in> set (grad_buffer s')" for k l u
  proof -
    from that(1) s' loop have "LossScaler k l u \<in> set (calls (state_of ?loop))" by simp
    from train_loop_scaler[OF this] have "u = ((int k + 1) mod accum_iter args = 0)"
      by (auto simp: train_setup_calls split: option.splits)
    then have u: "u = (Suc k mod ?m = 0)" by (simp only: accum_mod[OF a])
    from that(2) have "?n div ?m * ?m \<le> k" "k < ?n" unfolding buf low by simp_all
    from last_group_open[OF this m] u show ?thesis by simp
  qed
  have disjoint: "set [g * ?m ..< g * ?m + ?m] \<inter> set (grad_buffer s') = {}" if "g < ?n div ?m" for g
  proof -
    from that have "Suc g \<le> ?n div ?m" by simp
    then have "Suc g * ?m \<le> ?n div ?m * ?m" by (rule mult_le_mono1)
    then have "g * ?m + ?m \<le> ?n div ?m * ?m" by (simp add: add.commute)
    then show ?thesis unfolding buf low by auto
  qed
  from buf nonempty open_calls steps disjoint show ?thesis by blast
qed

theorem train_one_epoch_partial_group_left_witness:
  "\<not> accum_iter \<lparr>accum_iter = 2, data = ''RISE''\<rparr> dvd
       int (length [\<lparr>loss_item = Finite 1, param_group_lrs = [1 / 10]\<rparr>,
                    \<lparr>loss_item = Finite 3, param_group_lrs = [1 / 5]\<rparr>,
                    \<lparr>loss_item = Finite 2, param_group_lrs = [1 / 5]\<rparr>]) \<and>
   grad_buffer (snd (train_one_epoch
       [\<lparr>loss_item = Finite 1, param_group_lrs = [1 / 10]\<rparr>,
        \<lparr>loss_item = Finite 3, param_group_lrs = [1 / 5]\<rparr>,
        \<lparr>loss_item = Finite 2, param_group_lrs = [1 / 5]\<rparr>]
       0 False (Some ''out'') \<lparr>accum_iter = 2, data = ''RISE''\<rparr> idle)) = [2] \<and>
   opt_steps (snd (train_one_epoch
       [\<lparr>loss_item = Finite 1, param_group_lrs = [1 / 10]\<rparr>,
        \<lparr>loss_item = Finite 3, param_group_lrs = [1 / 5]\<rparr>,
        \<lparr>loss_item = Finite 2, param_group_lrs = [1 / 5]\<rparr>]
       0 False (Some ''out'') \<lparr>accum_iter = 2, data = ''RISE''\<rparr> idle)) = [[0, 1]]"
proof -
  have "\<not> accum_iter \<lparr>accum_iter = 2, data = ''RISE''\<rparr> dvd
       int (length [\<lparr>loss_item = Finite 1, param_group_lrs = [1 / 10]\<rparr>,
                    \<lparr>loss_item = Finite 3, param_group_lrs = [1 / 5]\<rparr>,
                    \<lparr>loss_item = Finite 2, param_group_lrs = [1 / 5]\<rparr>])"
    by simp
  from train_one_epoch_partial_group_left[OF example_epoch this] this show ?thesis
    by (simp add: example_epoch)
qed

subsection \<open>The evaluation pass\<close>

lemma eval_step_calls:
  "calls (eval_step k b s) = calls s @ [Forward k (training s) (grad_enabled s), Criterion k]"
  by (simp add: eval_step_def emit_def Let_def)

lemma eval_step_fields:
  "preds (eval_step k b s) = preds s @ [map fst (samples b)]"
  "targets (eval_step k b s) = targets s @ [map snd (samples b)]"
  "training (eval_step k b s) = training s"
  "grad_enabled (eval_step k b s) = grad_enabled s"
  "grad_buffer (eval_step k b s) = grad_buffer s"
  "opt_steps (eval_step k b s) = opt_steps s"
  "meters (eval_step k b s) =
     meter_update ''acc3'' (acc3 b) (length (samples b))
       (meter_update ''acc1'' (acc1 b) (length (samples b))
         (logger_update ''loss'' (loss_val b) (logger_update ''F1'' (f1 b) (meters s))))"
  by (simp_all add: eval_step_def emit_def Let_def)

lemma eval_loop_append:
  "eval_loop k (bs @ cs) s = eval_loop (k + length bs) cs (eval_loop k bs s)"
  by (induction bs arbitrary: k s) auto

lemma eval_loop_fields:
  "preds (eval_loop k bs s) = preds s @ map (\<lambda>b. map fst (samples b)) bs"
  "targets (eval_loop k bs s) = targets s @ map (\<lambda>b. map snd (samples b)) bs"
  "training (eval_loop k bs s) = training s"
  "grad_enabled (eval_loop k bs s) = grad_enabled s"
  "grad_buffer (eval_loop k bs s) = grad_buffer s"
  "opt_steps (eval_loop k bs s) = opt_steps s"
  by (induction bs arbitrary: k s; simp add: eval_step_fields)+

lemma eval_loop_calls:
  "calls (eval_loop k bs s) = calls s @
     concat (map (\<lambda>i. [Forward i (training s) (grad_enabled s), Criterion i]) [k..<k + length bs])"
proof (induction bs arbitrary: k s)
  case Nil
  then show ?case by simp
next
  case (Cons b bs)
  have "[k..<k + length (b # bs)] = k # [Suc k..<Suc k + length bs]"
    by (subst upt_rec) simp
  then show ?case
    by (simp add: Cons.IH eval_step_calls eval_step_fields del: upt_Suc)
qed

lemma eval_loop_meters:
  assumes "meters s = []" "bs \<noteq> []"
  shows "meters (eval_loop 0 bs s) =
     [(''F1'', map (\<lambda>b. (f1 b, 1)) bs), (''loss'', map (\<lambda>b. (loss_val b, 1)) bs),
      (''acc1'', map (\<lambda>b. (acc1 b, length (samples b))) bs),
      (''acc3'', map (\<lambda>b. (acc3 b, length (samples b))) bs)]"
  using assms(2)
proof (induction bs rule: rev_induct)
  case Nil
  then show ?case by simp
next
  case (snoc b bs)
  have step: "eval_loop 0 (bs @ [b]) s = eval_step (length bs) b (eval_loop 0 bs s)"
    by (simp add: eval_loop_append)
  show ?case
  proof (cases "bs = []")
    case True
    with assms(1) show ?thesis
      by (simp add: eval_step_fields logger_update_def)
  next
    case False
    from snoc.IH[OF False] show ?thesis
      by (simp add: step eval_step_fields logger_update_def)
  qed
qed

lemma eval_pass_calls:
  "calls (eval_pass bs s) = calls s @ ModelEval #
     concat (map (\<lambda>i. [Forward i False (grad_enabled s), Criterion i]) [0..<length bs]) @ [Synchronize]"
  by (simp add: eval_pass_def Let_def emit_def eval_loop_calls eval_loop_fields)

lemma eval_pass_fields:
  "preds (eval_pass bs s) = map (\<lambda>b. map fst (samples b)) bs"
  "targets (eval_pass bs s) = map (\<lambda>b. map snd (samples b)) bs"
  "training (eval_pass bs s) = False"
  "grad_enabled (eval_pass bs s) = grad_enabled s"
  "grad_buffer (eval_pass bs s) = grad_buffer s"
  "opt_steps (eval_pass bs s) = opt_steps s"
  by (simp_all add: eval_pass_def Let_def emit_def eval_loop_fields)

lemma eval_pass_meters:
  "meters (eval_pass bs s) =
     (if bs = [] then []
      else [(''F1'', map (\<lambda>b. (f1 b, 1)) bs), (''loss'', map (\<lambda>b. (loss_val b, 1)) bs),
            (''acc1'', map (\<lambda>b. (acc1 b, length (samples b))) bs),
            (''acc3'', map (\<lambda>b. (acc3 b, length (samples b))) bs)])"
  by (simp add: eval_pass_def Let_def emit_def eval_loop_meters)

lemma count_unit: "count (map (\<lambda>b. (f b, Suc 0)) bs) = length bs"
  by (induction bs) (simp_all add: count_def)

lemma total_unit: "total (map (\<lambda>b. (f b, Suc 0)) bs) = sum_list (map f bs)"
  by (induction bs) (simp_all add: total_def)

lemma count_sized: "count (map (\<lambda>b. (f b, length (samples b))) bs) = length (concat (map samples bs))"
  by (induction bs) (simp_all add: count_def)

lemma total_sized:
  "total (map (\<lambda>b. (f b, length (samples b))) bs) = sum_list (map (\<lambda>b. f b * real (length (samples b))) bs)"
  by (induction bs) (simp_all add: total_def)

lemma no_samples_iff: "concat (map samples bs) = [] \<longleftrightarrow> (\<forall>b\<in>set bs. samples b = [])"
  by (induction bs) auto

lemma print_summary_empty:
  assumes "meters s = []"
  shows "print_summary s = Inl (ZeroDivisionError, s\<lparr>meters := [(''acc1'', [])]\<rparr>)"
  using assms
  by (simp add: print_summary_def meter_global_avg_def getitem_def global_avg_def count_def)

lemma print_summary_lookup_fail:
  assumes "map_of (meters s) ''acc1'' = Some m" "count m = 0"
  shows "print_summary s = Inl (ZeroDivisionError, s)"
  using assms
  by (simp add: print_summary_def meter_global_avg_def getitem_def global_avg_def)

lemma print_summary_lookup_ok:
  assumes "map_of (meters s) ''acc1'' = Some m1" "count m1 \<noteq> 0"
    and "map_of (meters s) ''acc3'' = Some m3" "count m3 \<noteq> 0"
    and "map_of (meters s) ''loss'' = Some ml" "count ml \<noteq> 0"
    and "map_of (meters s) ''F1'' = Some mf" "count mf \<noteq> 0"
  shows "\<exists>p. print_summary s = Inr (emit (Print p) s)"
  using assms
  by (simp add: print_summary_def meter_global_avg_def getitem_def global_avg_def) blast

lemma print_summary_no_samples:
  assumes "meters s =
     [(''F1'', map (\<lambda>b. (f1 b, 1)) bs), (''loss'', map (\<lambda>b. (loss_val b, 1)) bs),
      (''acc1'', map (\<lambda>b. (acc1 b, length (samples b))) bs),
      (''acc3'', map (\<lambda>b. (acc3 b, length (samples b))) bs)]"
    and "concat (map samples bs) = []"
  shows "print_summary s = Inl (ZeroDivisionError, s)"
proof (rule print_summary_lookup_fail)
  show "map_of (meters s) ''acc1'' = Some (map (\<lambda>b. (acc1 b, length (samples b))) bs)"
    by (simp add: assms(1))
  show "count (map (\<lambda>b. (acc1 b, length (samples b))) bs) = 0"
    using assms(2) by (simp only: count_sized list.size)
qed

lemma print_summary_ok:
  assumes "meters s =
     [(''F1'', map (\<lambda>b. (f1 b, 1)) bs), (''loss'', map (\<lambda>b. (loss_val b, 1)) bs),
      (''acc1'', map (\<lambda>b. (acc1 b, length (samples b))) bs),
      (''acc3'', map (\<lambda>b. (acc3 b, length (samples b))) bs)]"
    and "concat (map samples bs) \<noteq> []"
  shows "\<exists>p. print_summary s = Inr (emit (Print p) s)"
proof (rule print_summary_lookup_ok)
  from assms(2) have ne: "bs \<noteq> []" by auto
  show "map_of (meters s) ''acc1'' = Some (map (\<lambda>b. (acc1 b, length (samples b))) bs)"
    by (simp add: assms(1))
  show "map_of (meters s) ''acc3'' = Some (map (\<lambda>b. (acc3 b, length (samples b))) bs)"
    by (simp add: assms(1))
  show "map_of (meters s) ''loss'' = Some (map (\<lambda>b. (loss_val b, Suc 0)) bs)"
    by (simp add: assms(1))
  show "map_of (meters s) ''F1'' = Some (map (\<lambda>b. (f1 b, Suc 0)) bs)"
    by (simp add: assms(1))
  show "count (map (\<lambda>b. (acc1 b, length (samples b))) bs) \<noteq> 0"
    using assms(2) by (simp only: count_sized length_0_conv not_False_eq_True)
  show "count (map (\<lambda>b. (acc3 b, length (samples b))) bs) \<noteq> 0"
    using assms(2) by (simp only: count_sized length_0_conv not_False_eq_True)
  show "count (map (\<lambda>b. (loss_val b, Suc 0)) bs) \<noteq> 0"
    using ne by (simp only: count_unit length_0_conv not_False_eq_True)
  show "count (map (\<lambda>b. (f1 b, Suc 0)) bs) \<noteq> 0"
    using ne by (simp only: count_unit length_0_conv not_False_eq_True)
qed

lemma global_avgs_eval:
  assumes "concat (map samples bs) \<noteq> []"
  shows "global_avgs
     [(''F1'', map (\<lambda>b. (f1 b, 1)) bs), (''loss'', map (\<lambda>b. (loss_val b, 1)) bs),
      (''acc1'', map (\<lambda>b. (acc1 b, length (samples b))) bs),
      (''acc3'', map (\<lambda>b. (acc3 b, length (samples b))) bs)] =
     Inr [(''F1'', sum_list (map f1 bs) / real (length bs)),
          (''loss'', sum_list (map loss_val bs) / real (length bs)),
          (''acc1'', sum_list (map (\<lambda>b. acc1 b * real (length (samples b))) bs)
                       / real (length (concat (map samples bs)))),
          (''acc3'', sum_list (map (\<lambda>b. acc3 b * real (length (samples b))) bs)
                       / real (length (concat (map samples bs))))]"
proof -
  from assms have "bs \<noteq> []" by auto
  with assms show ?thesis
    by (simp add: global_avg_def count_unit count_sized total_unit total_sized del: concat_eq_Nil_conv)
qed

lemma mapping_eq:
  "mapping x = (if 0 \<le> x \<and> x \<le> 6 then Some (if x = 1 \<or> x = 2 \<or> x = 3 then 1 else 0) else None)"
proof (cases "0 \<le> x \<and> x \<le> 6")
  case True
  then have "x = 0 \<or> x = 1 \<or> x = 2 \<or> x = 3 \<or> x = 4 \<or> x = 5 \<or> x = 6" by arith
  then show ?thesis by (auto simp: mapping_def)
next
  case False
  then show ?thesis by (auto simp: mapping_def)
qed

lemma collapse_ok:
  "\<forall>x\<in>set xs. 0 \<le> x \<and> x \<le> 6 \<Longrightarrow>
     collapse xs = Inr (map (\<lambda>x. if x = 1 \<or> x = 2 \<or> x = 3 then 1 else 0) xs)"
  by (induction xs) (simp_all add: mapping_eq)

lemma collapse_bad:
  "\<not> (\<forall>x\<in>set xs. 0 \<le> x \<and> x \<le> 6) \<Longrightarrow>
     \<exists>x\<in>set xs. (x < 0 \<or> 6 < x) \<and> collapse xs = Inl (KeyError x)"
proof (induction xs)
  case Nil
  then show ?case by simp
next
  case (Cons y ys)
  show ?case
  proof (cases "0 \<le> y \<and> y \<le> 6")
    case True
    with Cons.prems have "\<not> (\<forall>x\<in>set ys. 0 \<le> x \<and> x \<le> 6)" by simp
    from Cons.IH[OF this] True show ?thesis by (auto simp: mapping_eq)
  next
    case False
    then show ?thesis by (auto simp: mapping_eq)
  qed
qed

lemma length_collapse: "collapse xs = Inr ys \<Longrightarrow> length ys = length xs"
  by (induction xs arbitrary: ys) (auto split: option.splits sum.splits)

lemma collapse_plot_cases:
  assumes "ps \<noteq> []"
  shows "collapse_plot ps ts name title s =
    (case collapse ps of
       Inl e \<Rightarrow> Inl (e, s)
     | Inr pb \<Rightarrow>
         (case collapse ts of
            Inl e \<Rightarrow> Inl (e, s)
          | Inr tb \<Rightarrow>
              Inr (s\<lparr>calls := calls s @
                [Figure, Heatmap tb pb [''Sedentary'', ''Active''], XLabel ''Predicted Labels'',
                 YLabel ''True Labels'',
                 Title (py_str title @ ''(binary); Accuracy = '') (real (accordance pb tb) / real (length ps)),
                 Show, SaveFig (plots_dir @ py_str name @ ''_bin_confusion_matrix.png'')]\<rparr>)))"
  using assms
  by (simp add: collapse_plot_def py_truediv_def emit_def Let_def split: sum.splits)

lemma confusion_plot_cases:
  assumes "concat (preds s) \<noteq> []"
  shows "confusion_plot args col name title s =
    (if data args \<noteq> ''UCIHAR'' \<and> data args \<noteq> ''RISE''
     then Inl (UnboundLocalError ''labels'', s\<lparr>calls := calls s @ [Figure]\<rparr>)
     else
       let s1 = s\<lparr>calls := calls s @
          [Figure,
           Heatmap (concat (targets s)) (concat (preds s))
             (if data args = ''RISE''
              then [''sedentary'', ''standing'', ''stepping'', ''cycling'', ''primary_lying'',
                    ''secondary_lying'', ''seated_transport'']
              else [''Transition'', ''Walking'', ''Walking-upstairs'', ''Walking-downstairs'',
                    ''Sitting'', ''Standing'', ''Laying'']),
           XLabel ''Predicted Labels'', YLabel ''True Labels'',
           Title (py_str title @ ''; Accuracy = '')
             (real (accordance (concat (preds s)) (concat (targets s))) / real (length (concat (preds s)))),
           Show, SaveFig (plots_dir @ py_str name @ ''_confusion_matrix.png'')]\<rparr>
       in if col then collapse_plot (concat (preds s)) (concat (targets s)) name title s1 else Inr s1)"
  using assms
  by (simp add: confusion_plot_def py_truediv_def emit_def Let_def del: concat_eq_Nil_conv)

lemma confusion_plot_empty:
  assumes "concat (preds s) = []"
  shows "confusion_plot args col name title s = Inl (ZeroDivisionError, s)"
  using assms by (simp add: confusion_plot_def py_truediv_def Let_def del: concat_eq_Nil_conv)

lemma meter_global_avg_fields:
  assumes "meter_global_avg k s = r"
  shows "calls (case r of Inl (e, s') \<Rightarrow> s' | Inr (v, s') \<Rightarrow> s') = calls s \<and>
         preds (case r of Inl (e, s') \<Rightarrow> s' | Inr (v, s') \<Rightarrow> s') = preds s \<and>
         targets (case r of Inl (e, s') \<Rightarrow> s' | Inr (v, s') \<Rightarrow> s') = targets s \<and>
         training (case r of Inl (e, s') \<Rightarrow> s' | Inr (v, s') \<Rightarrow> s') = training s \<and>
         grad_enabled (case r of Inl (e, s') \<Rightarrow> s' | Inr (v, s') \<Rightarrow> s') = grad_enabled s \<and>
         grad_buffer (case r of Inl (e, s') \<Rightarrow> s' | Inr (v, s') \<Rightarrow> s') = grad_buffer s \<and>
         opt_steps (case r of Inl (e, s') \<Rightarrow> s' | Inr (v, s') \<Rightarrow> s') = opt_steps s"
  using assms
  by (auto simp: meter_global_avg_def Let_def split: prod.splits sum.splits)

lemma print_summary_fields:
  "\<exists>tail. calls (state_of (print_summary s)) = calls s @ tail \<and> list_all report_call tail"
  "preds (state_of (print_summary s)) = preds s"
  "targets (state_of (print_summary s)) = targets s"
  "training (state_of (print_summary s)) = training s"
  "grad_enabled (state_of (print_summary s)) = grad_enabled s"
  "grad_buffer (state_of (print_summary s)) = grad_buffer s"
  "opt_steps (state_of (print_summary s)) = opt_steps s"
proof -
  obtain r1 where r1: "meter_global_avg ''acc1'' s = r1" by simp
  note f1 = meter_global_avg_fields[OF r1]
  have all: "(\<exists>tail. calls (state_of (print_summary s)) = calls s @ tail \<and> list_all report_call tail) \<and>
    preds (state_of (print_summary s)) = preds s \<and>
    targets (state_of (print_summary s)) = targets s \<and>
    training (state_of (print_summary s)) = training s \<and>
    grad_enabled (state_of (print_summary s)) = grad_enabled s \<and>
    grad_buffer (state_of (print_summary s)) = grad_buffer s \<and>
    opt_steps (state_of (print_summary s)) = opt_steps s"
  proof (cases r1)
    case (Inl es1)
    with r1 f1 show ?thesis by (cases es1) (simp add: print_summary_def)
  next
    case (Inr vs1)
    obtain a1 s1 where vs1: "vs1 = (a1, s1)" by (cases vs1)
    obtain r2 where r2: "meter_global_avg ''acc3'' s1 = r2" by simp
    note f2 = meter_global_avg_fields[OF r2]
    show ?thesis
    proof (cases r2)
      case (Inl es2)
      with r1 Inr vs1 r2 f1 f2 show ?thesis by (cases es2) (simp add: print_summary_def)
    next
      case Inr2: (Inr vs2)
      obtain a3 s2 where vs2: "vs2 = (a3, s2)" by (cases vs2)
      obtain r3 where r3: "meter_global_avg ''loss'' s2 = r3" by simp
      note f3 = meter_global_avg_fields[OF r3]
      show ?thesis
      proof (cases r3)
        case (Inl es3)
        with r1 Inr vs1 r2 Inr2 vs2 r3 f1 f2 f3 show ?thesis
          by (cases es3) (simp add: print_summary_def)
      next
        case Inr3: (Inr vs3)
        obtain l s3 where vs3: "vs3 = (l, s3)" by (cases vs3)
        obtain r4 where r4: "meter_global_avg ''F1'' s3 = r4" by simp
        note f4 = meter_global_avg_fields[OF r4]
        show ?thesis
        proof (cases r4)
          case (Inl es4)
          with r1 Inr vs1 r2 Inr2 vs2 r3 Inr3 vs3 r4 f1 f2 f3 f4 show ?thesis
            by (cases es4) (simp add: print_summary_def)
        next
          case Inr4: (Inr vs4)
          with r1 Inr vs1 r2 Inr2 vs2 r3 Inr3 vs3 r4 f1 f2 f3 f4 show ?thesis
            by (cases vs4) (simp add: print_summary_def emit_def)
        qed
      qed
    qed
  qed
  from all show "\<exists>tail. calls (state_of (print_summary s)) = calls s @ tail \<and> list_all report_call tail"
    and "preds (state_of (print_summary s)) = preds s"
    and "targets (state_of (print_summary s)) = targets s"
    and "training (state_of (print_summary s)) = training s"
    and "grad_enabled (state_of (print_summary s)) = grad_enabled s"
    and "grad_buffer (state_of (print_summary s)) = grad_buffer s"
    and "opt_steps (state_of (print_summary s)) = opt_steps s"
    by blast+
qed

lemma collapse_plot_fields:
  "\<exists>tail. calls (state_of (collapse_plot ps ts name title s)) = calls s @ tail \<and> list_all report_call tail"
  "meters (state_of (collapse_plot ps ts name title s)) = meters s"
  "training (state_of (collapse_plot ps ts name title s)) = training s"
  "grad_enabled (state_of (collapse_plot ps ts name title s)) = grad_enabled s"
  "grad_buffer (state_of (collapse_plot ps ts name title s)) = grad_buffer s"
  "opt_steps (state_of (collapse_plot ps ts name title s)) = opt_steps s"
  by (auto simp: collapse_plot_def py_truediv_def emit_def Let_def split: sum.splits)

lemma confusion_plot_fields:
  "\<exists>tail. calls (state_of (confusion_plot args col name title s)) = calls s @ tail \<and> list_all report_call tail"
  "meters (state_of (confusion_plot args col name title s)) = meters s"
  "training (state_of (confusion_plot args col name title s)) = training s"
  "grad_enabled (state_of (confusion_plot args col name title s)) = grad_enabled s"
  "grad_buffer (state_of (confusion_plot args col name title s)) = grad_buffer s"
  "opt_steps (state_of (confusion_plot args col name title s)) = opt_steps s"
proof -
  show "\<exists>tail. calls (state_of (confusion_plot args col name title s)) = calls s @ tail \<and> list_all report_call tail"
  proof (cases "concat (preds s) = []")
    case True
    then show ?thesis by (simp add: confusion_plot_empty)
  next
    case False
    show ?thesis
    proof (cases "col \<and> (data args = ''UCIHAR'' \<or> data args = ''RISE'')")
      case True
      let ?s1 = "s\<lparr>calls := calls s @
          [Figure,
           Heatmap (concat (targets s)) (concat (preds s))
             (if data args = ''RISE''
              then [''sedentary'', ''standing'', ''stepping'', ''cycling'', ''primary_lying'',
                    ''secondary_lying'', ''seated_transport'']
              else [''Transition'', ''Walking'', ''Walking-upstairs'', ''Walking-downstairs'',
                    ''Sitting'', ''Standing'', ''Laying'']),
           XLabel ''Predicted Labels'', YLabel ''True Labels'',
           Title (py_str title @ ''; Accuracy = '')
             (real (accordance (concat (preds s)) (concat (targets s))) / real (length (concat (preds s)))),
           Show, SaveFig (plots_dir @ py_str name @ ''_confusion_matrix.png'')]\<rparr>"
      from True have eq: "confusion_plot args col name title s =
          collapse_plot (concat (preds s)) (concat (targets s)) name title ?s1"
        by (simp only: confusion_plot_cases[OF False] Let_def) auto
      obtain tail where "calls (state_of (collapse_plot (concat (preds s)) (concat (targets s)) name title ?s1))
          = calls ?s1 @ tail" "list_all report_call tail"
        using collapse_plot_fields(1) by blast
      with eq show ?thesis by simp
    next
      case False2: False
      with False show ?thesis
        by (auto simp: confusion_plot_cases Let_def)
    qed
  qed
next
  have *: "meters (state_of (confusion_plot args col name title s)) = meters s \<and>
     training (state_of (confusion_plot args col name title s)) = training s \<and>
     grad_enabled (state_of (confusion_plot args col name title s)) = grad_enabled s \<and>
     grad_buffer (state_of (confusion_plot args col name title s)) = grad_buffer s \<and>
     opt_steps (state_of (confusion_plot args col name title s)) = opt_steps s"
  proof (cases "concat (preds s) = []")
    case True
    then show ?thesis by (simp add: confusion_plot_empty)
  next
    case False
    then show ?thesis
      by (simp add: confusion_plot_cases Let_def collapse_plot_fields)
  qed
  from * show "meters (state_of (confusion_plot args col name title s)) = meters s"
    and "training (state_of (confusion_plot args col name title s)) = training s"
    and "grad_enabled (state_of (confusion_plot args col name title s)) = grad_enabled s"
    and "grad_buffer (state_of (confusion_plot args col name title s)) = grad_buffer s"
    and "opt_steps (state_of (confusion_plot args col name title s)) = opt_steps s"
    by blast+
qed

lemma evaluate_unfold:
  "evaluate bs args plot col name title s0 =
     (case print_summary (eval_pass bs (s0\<lparr>calls := [], grad_enabled := False\<rparr>)) of
        Inl (e, s) \<Rightarrow> (Inl e, s\<lparr>grad_enabled := grad_enabled s0\<rparr>)
      | Inr s \<Rightarrow>
          if plot
          then (case confusion_plot args col name title s of
                  Inl (e, s) \<Rightarrow> (Inl e, s\<lparr>grad_enabled := grad_enabled s0\<rparr>)
                | Inr s \<Rightarrow> (global_avgs (meters s), s\<lparr>grad_enabled := grad_enabled s0\<rparr>))
          else (global_avgs (meters s), s\<lparr>grad_enabled := grad_enabled s0\<rparr>))"
  by (simp add: evaluate_def evaluate_body_def split: sum.splits prod.splits)

lemma concat_preds:
  "concat (map (\<lambda>b. map fst (samples b)) bs) = map fst (concat (map samples bs))"
  "concat (map (\<lambda>b. map snd (samples b)) bs) = map snd (concat (map samples bs))"
  by (simp_all add: map_concat comp_def)

lemma evaluate_with_samples:
  assumes "concat (map samples bs) \<noteq> []"
  obtains p s2 where
    "print_summary (eval_pass bs (s0\<lparr>calls := [], grad_enabled := False\<rparr>)) = Inr s2"
    "calls s2 = ModelEval # concat (map (\<lambda>i. [Forward i False False, Criterion i]) [0..<length bs])
                  @ [Synchronize, Print p]"
    "meters s2 =
       [(''F1'', map (\<lambda>b. (f1 b, 1)) bs), (''loss'', map (\<lambda>b. (loss_val b, 1)) bs),
        (''acc1'', map (\<lambda>b. (acc1 b, length (samples b))) bs),
        (''acc3'', map (\<lambda>b. (acc3 b, length (samples b))) bs)]"
    "concat (preds s2) = map fst (concat (map samples bs))"
    "concat (targets s2) = map snd (concat (map samples bs))"
    "training s2 = False" "grad_enabled s2 = False"
    "grad_buffer s2 = grad_buffer s0" "opt_steps s2 = opt_steps s0"
proof -
  let ?P = "eval_pass bs (s0\<lparr>calls := [], grad_enabled := False\<rparr>)"
  from assms have ne: "bs \<noteq> []" by auto
  then have m: "meters ?P =
       [(''F1'', map (\<lambda>b. (f1 b, 1)) bs), (''loss'', map (\<lambda>b. (loss_val b, 1)) bs),
        (''acc1'', map (\<lambda>b. (acc1 b, length (samples b))) bs),
        (''acc3'', map (\<lambda>b. (acc3 b, length (samples b))) bs)]"
    by (simp add: eval_pass_meters)
  from print_summary_ok[OF m assms] obtain p where p: "print_summary ?P = Inr (emit (Print p) ?P)"
    by blast
  show ?thesis
  proof (rule that[of "emit (Print p) ?P" p])
    show "print_summary ?P = Inr (emit (Print p) ?P)" by (rule p)
  qed (simp_all add: emit_def eval_pass_calls eval_pass_fields m concat_preds)
qed

lemma evaluate_no_samples:
  assumes "concat (map samples bs) = []"
  shows "fst (evaluate bs args plot col name title s0) = Inl ZeroDivisionError \<and>
         calls (snd (evaluate bs args plot col name title s0)) =
           ModelEval # concat (map (\<lambda>i. [Forward i False False, Criterion i]) [0..<length bs])
             @ [Synchronize]"
proof (cases "bs = []")
  case True
  then show ?thesis
    by (simp add: evaluate_unfold print_summary_empty eval_pass_meters eval_pass_calls)
next
  case False
  let ?P = "eval_pass bs (s0\<lparr>calls := [], grad_enabled := False\<rparr>)"
  from False have m: "meters ?P =
       [(''F1'', map (\<lambda>b. (f1 b, 1)) bs), (''loss'', map (\<lambda>b. (loss_val b, 1)) bs),
        (''acc1'', map (\<lambda>b. (acc1 b, length (samples b))) bs),
        (''acc3'', map (\<lambda>b. (acc3 b, length (samples b))) bs)]"
    by (simp add: eval_pass_meters)
  from print_summary_no_samples[OF m assms] show ?thesis
    by (simp add: evaluate_unfold eval_pass_calls)
qed

lemma evaluate_state:
  assumes run: "evaluate bs args plot col name title s0 = (r, s')"
  shows "\<exists>tail. calls s' = ModelEval # concat (map (\<lambda>i. [Forward i False False, Criterion i]) [0..<length bs])
             @ Synchronize # tail \<and> list_all report_call tail"
    and "grad_buffer s' = grad_buffer s0" and "opt_steps s' = opt_steps s0"
    and "grad_enabled s' = grad_enabled s0" and "training s' = False"
proof -
  let ?P = "eval_pass bs (s0\<lparr>calls := [], grad_enabled := False\<rparr>)"
  let ?B = "concat (map (\<lambda>i. [Forward i False False, Criterion i]) [0..<length bs])"
  obtain t1 where t1: "calls (state_of (print_summary ?P)) = calls ?P @ t1" "list_all report_call t1"
    using print_summary_fields(1) by blast
  have P: "calls ?P = ModelEval # ?B @ [Synchronize]" by (simp add: eval_pass_calls)
  have "(\<exists>tail. calls s' = ModelEval # ?B @ Synchronize # tail \<and> list_all report_call tail) \<and>
        grad_buffer s' = grad_buffer s0 \<and> opt_steps s' = opt_steps s0 \<and>
        grad_enabled s' = grad_enabled s0 \<and> training s' = False"
  proof (cases "print_summary ?P")
    case (Inl es)
    obtain e s1 where es: "es = (e, s1)" by (cases es)
    from Inl es have s1: "s1 = state_of (print_summary ?P)" by simp
    from run Inl es have s': "s' = s1\<lparr>grad_enabled := grad_enabled s0\<rparr>"
      by (simp add: evaluate_unfold)
    from t1 P have "calls s' = ModelEval # ?B @ Synchronize # t1" unfolding s' s1 by simp
    with t1(2) show ?thesis unfolding s' s1
      by (auto simp: print_summary_fields eval_pass_fields)
  next
    case (Inr s2)
    then have s2: "s2 = state_of (print_summary ?P)" by simp
    have f2: "calls s2 = ModelEval # ?B @ Synchronize # t1" "grad_buffer s2 = grad_buffer s0"
      "opt_steps s2 = opt_steps s0" "training s2 = False"
      using t1 P unfolding s2 by (simp_all add: print_summary_fields eval_pass_fields)
    show ?thesis
    proof (cases plot)
      case False
      with run Inr have "s' = s2\<lparr>grad_enabled := grad_enabled s0\<rparr>"
        by (simp add: evaluate_unfold)
      with f2 t1(2) show ?thesis by auto
    next
      case True
      let ?C = "confusion_plot args col name title s2"
      obtain t2 where t2: "calls (state_of ?C) = calls s2 @ t2" "list_all report_call t2"
        using confusion_plot_fields(1) by blast
      from run Inr True have "s' = (state_of ?C)\<lparr>grad_enabled := grad_enabled s0\<rparr>"
        by (auto simp: evaluate_unfold split: sum.splits)
      moreover have "calls (state_of ?C) = ModelEval # ?B @ Synchronize # (t1 @ t2)"
        using t2(1) f2(1) by simp
      moreover have "list_all report_call (t1 @ t2)" using t1(2) t2(2) by simp
      ultimately show ?thesis using f2 by (auto simp: confusion_plot_fields)
    qed
  qed
  then show "\<exists>tail. calls s' = ModelEval # ?B @ Synchronize # tail \<and> list_all report_call tail"
    and "grad_buffer s' = grad_buffer s0" and "opt_steps s' = opt_steps s0"
    and "grad_enabled s' = grad_enabled s0" and "training s' = False"
    by blast+
qed

lemma pass_no_savefig:
  "[path. SaveFig path \<leftarrow> concat (map (\<lambda>i. [Forward i t g, Criterion i]) xs)] = []"
  by (induction xs) simp_all

lemma pass_no_heatmap:
  "[labels. Heatmap y_true y_pred labels \<leftarrow> concat (map (\<lambda>i. [Forward i t g, Criterion i]) xs)] = []"
  by (induction xs) simp_all

lemma evaluate_plot_unfold:
  assumes "concat (map samples bs) \<noteq> []"
  obtains p s2 where
    "calls s2 = ModelEval # concat (map (\<lambda>i. [Forward i False False, Criterion i]) [0..<length bs])
                  @ [Synchronize, Print p]"
    "concat (preds s2) = map fst (concat (map samples bs))"
    "concat (targets s2) = map snd (concat (map samples bs))"
    "\<And>args col name title. evaluate bs args True col name title s0 =
       (case confusion_plot args col name title s2 of
          Inl (e, s) \<Rightarrow> (Inl e, s\<lparr>grad_enabled := grad_enabled s0\<rparr>)
        | Inr s \<Rightarrow>
            (Inr [(''F1'', sum_list (map f1 bs) / real (length bs)),
                  (''loss'', sum_list (map loss_val bs) / real (length bs)),
                  (''acc1'', sum_list (map (\<lambda>b. acc1 b * real (length (samples b))) bs)
                       / real (length (concat (map samples bs)))),
                  (''acc3'', sum_list (map (\<lambda>b. acc3 b * real (length (samples b))) bs)
                       / real (length (concat (map samples bs))))],
             s\<lparr>grad_enabled := grad_enabled s0\<rparr>))"
    "\<And>args col name title. evaluate bs args False col name title s0 =
            (Inr [(''F1'', sum_list (map f1 bs) / real (length bs)),
                  (''loss'', sum_list (map loss_val bs) / real (length bs)),
                  (''acc1'', sum_list (map (\<lambda>b. acc1 b * real (length (samples b))) bs)
                       / real (length (concat (map samples bs)))),
                  (''acc3'', sum_list (map (\<lambda>b. acc3 b * real (length (samples b))) bs)
                       / real (length (concat (map samples bs))))],
             s2\<lparr>grad_enabled := grad_enabled s0\<rparr>)"
    "meters s2 =
       [(''F1'', map (\<lambda>b. (f1 b, 1)) bs), (''loss'', map (\<lambda>b. (loss_val b, 1)) bs),
        (''acc1'', map (\<lambda>b. (acc1 b, length (samples b))) bs),
        (''acc3'', map (\<lambda>b. (acc3 b, length (samples b))) bs)]"
proof -
  have "\<exists>p s2.
    print_summary (eval_pass bs (s0\<lparr>calls := [], grad_enabled := False\<rparr>)) = Inr s2 \<and>
    calls s2 = ModelEval # concat (map (\<lambda>i. [Forward i False False, Criterion i]) [0..<length bs])
                  @ [Synchronize, Print p] \<and>
    meters s2 =
       [(''F1'', map (\<lambda>b. (f1 b, 1)) bs), (''loss'', map (\<lambda>b. (loss_val b, 1)) bs),
        (''acc1'', map (\<lambda>b. (acc1 b, length (samples b))) bs),
        (''acc3'', map (\<lambda>b. (acc3 b, length (samples b))) bs)] \<and>
    concat (preds s2) = map fst (concat (map samples bs)) \<and>
    concat (targets s2) = map snd (concat (map samples bs))"
  proof (rule evaluate_with_samples[OF assms, of s0])
    fix p s2
    assume "print_summary (eval_pass bs (s0\<lparr>calls := [], grad_enabled := False\<rparr>)) = Inr s2"
      "calls s2 = ModelEval # concat (map (\<lambda>i. [Forward i False False, Criterion i]) [0..<length bs])
                  @ [Synchronize, Print p]"
      "meters s2 =
       [(''F1'', map (\<lambda>b. (f1 b, 1)) bs), (''loss'', map (\<lambda>b. (loss_val b, 1)) bs),
        (''acc1'', map (\<lambda>b. (acc1 b, length (samples b))) bs),
        (''acc3'', map (\<lambda>b. (acc3 b, length (samples b))) bs)]"
      "concat (preds s2) = map fst (concat (map samples bs))"
      "concat (targets s2) = map snd (concat (map samples bs))"
    then show ?thesis by blast
  qed
  then obtain p s2 where s2:
    "print_summary (eval_pass bs (s0\<lparr>calls := [], grad_enabled := False\<rparr>)) = Inr s2"
    "calls s2 = ModelEval # concat (map (\<lambda>i. [Forward i False False, Criterion i]) [0..<length bs])
                  @ [Synchronize, Print p]"
    "meters s2 =
       [(''F1'', map (\<lambda>b. (f1 b, 1)) bs), (''loss'', map (\<lambda>b. (loss_val b, 1)) bs),
        (''acc1'', map (\<lambda>b. (acc1 b, length (samples b))) bs),
        (''acc3'', map (\<lambda>b. (acc3 b, length (samples b))) bs)]"
    "concat (preds s2) = map fst (concat (map samples bs))"
    "concat (targets s2) = map snd (concat (map samples bs))"
    by blast
  have avgs: "global_avgs (meters s2) =
            Inr [(''F1'', sum_list (map f1 bs) / real (length bs)),
                  (''loss'', sum_list (map loss_val bs) / real (length bs)),
                  (''acc1'', sum_list (map (\<lambda>b. acc1 b * real (length (samples b))) bs)
                       / real (length (concat (map samples bs)))),
                  (''acc3'', sum_list (map (\<lambda>b. acc3 b * real (length (samples b))) bs)
                       / real (length (concat (map samples bs))))]"
    unfolding s2(3) by (rule global_avgs_eval[OF assms])
  show ?thesis
  proof (rule that[of s2 p])
    fix args col name title
    have "meters s = meters s2" if "confusion_plot args col name title s2 = Inr s" for s
      using confusion_plot_fields(2)[of args col name title s2] that by simp
    then show "evaluate bs args True col name title s0 =
       (case confusion_plot args col name title s2 of
          Inl (e, s) \<Rightarrow> (Inl e, s\<lparr>grad_enabled := grad_enabled s0\<rparr>)
        | Inr s \<Rightarrow>
            (Inr [(''F1'', sum_list (map f1 bs) / real (length bs)),
                  (''loss'', sum_list (map loss_val bs) / real (length bs)),
                  (''acc1'', sum_list (map (\<lambda>b. acc1 b * real (length (samples b))) bs)
                       / real (length (concat (map samples bs)))),
                  (''acc3'', sum_list (map (\<lambda>b. acc3 b * real (length (samples b))) bs)
                       / real (length (concat (map samples bs))))],
             s\<lparr>grad_enabled := grad_enabled s0\<rparr>))"
      using s2(1) avgs by (simp add: evaluate_unfold split: sum.splits)
    show "evaluate bs args False col name title s0 =
            (Inr [(''F1'', sum_list (map f1 bs) / real (length bs)),
                  (''loss'', sum_list (map loss_val bs) / real (length bs)),
                  (''acc1'', sum_list (map (\<lambda>b. acc1 b * real (length (samples b))) bs)
                       / real (length (concat (map samples bs)))),
                  (''acc3'', sum_list (map (\<lambda>b. acc3 b * real (length (samples b))) bs)
                       / real (length (concat (map samples bs))))],
             s2\<lparr>grad_enabled := grad_enabled s0\<rparr>)"
      using s2(1) avgs by (simp add: evaluate_unfold)
  qed (rule s2)+
qed

text \<open>
  C7. \<^verbatim>\<open>evaluate\<close> is an inference pass that leaves the optimizer and the parameters as they
  were: it starts by switching the model to evaluation mode, every forward pass runs with
  the training flag off and the gradient mode off, it makes no call on the optimizer, the
  loss scaler or the learning rate schedule, and on return the gradient buffers, the
  record of optimizer updates and the caller's gradient mode are what they were at the
  call.
\<close>

theorem evaluate_no_gradient:
  assumes run: "evaluate data_loader args plot collapse_labels name title s0 = (r, s')"
  shows "hd (calls s') = ModelEval \<and> \<not> training s' \<and>
         (\<forall>k t g. Forward k t g \<in> set (calls s') \<longrightarrow> \<not> t \<and> \<not> g) \<and>
         (\<forall>e\<in>set (calls s'). \<not> optimizer_call e \<and> (\<forall>k n epoch. e \<noteq> AdjustLearningRate k n epoch)) \<and>
         grad_buffer s' = grad_buffer s0 \<and> opt_steps s' = opt_steps s0 \<and>
         grad_enabled s' = grad_enabled s0"
proof -
  from evaluate_state(1)[OF run] obtain tail where
    c: "calls s' = ModelEval # concat (map (\<lambda>i. [Forward i False False, Criterion i]) [0..<length data_loader])
             @ Synchronize # tail" and t: "list_all report_call tail" by blast
  have rep: "\<not> optimizer_call e \<and> (\<forall>k n epoch. e \<noteq> AdjustLearningRate k n epoch) \<and>
             (\<forall>k t g. e \<noteq> Forward k t g)" if "report_call e" for e
    using that by (cases e) simp_all
  from t have tail: "\<forall>e\<in>set tail. report_call e" by (simp add: list_all_iff)
  have fw: "\<not> t \<and> \<not> g" if "Forward k t g \<in> set (calls s')" for k t g
    using that rep tail unfolding c by auto
  have opt: "\<not> optimizer_call e \<and> (\<forall>k n epoch. e \<noteq> AdjustLearningRate k n epoch)"
    if "e \<in> set (calls s')" for e
    using that rep tail unfolding c by auto
  from c have "hd (calls s') = ModelEval" by simp
  with fw opt evaluate_state(2-5)[OF run] show ?thesis by blast
qed

lemma example_eval:
  "evaluate [\<lparr>samples = [(0, 0), (1, 0)], loss_val = 1, acc1 = 50, acc3 = 100, f1 = 2 / 3\<rparr>,
             \<lparr>samples = [(1, 1)], loss_val = 2, acc1 = 100, acc3 = 100, f1 = 1\<rparr>]
      \<lparr>accum_iter = 1, data = ''RISE''\<rparr> False False None None
      (idle\<lparr>grad_buffer := [5], opt_steps := [[3, 4]]\<rparr>)
   = (Inr [(''F1'', 5 / 6), (''loss'', 3 / 2), (''acc1'', 200 / 3), (''acc3'', 100)],
      \<lparr>calls = [ModelEval, Forward 0 False False, Criterion 0, Forward 1 False False, Criterion 1,
                Synchronize, Print (TestSummary (200 / 3) 100 (3 / 2) (5 / 6))],
       meters = [(''F1'', [(2 / 3, 1), (1, 1)]), (''loss'', [(1, 1), (2, 1)]),
                 (''acc1'', [(50, 2), (100, 1)]), (''acc3'', [(100, 2), (100, 1)])],
       preds = [[0, 1], [1]], targets = [[0, 0], [1]], training = False, grad_enabled = True,
       grad_buffer = [5], opt_steps = [[3, 4]]\<rparr>)"
  by (simp add: evaluate_def evaluate_body_def eval_pass_def eval_step_def print_summary_def
        meter_global_avg_def getitem_def global_avg_def count_def total_def logger_update_def
        emit_def idle_def Let_def)

theorem evaluate_no_gradient_witness:
  "Forward 1 False False \<in> set (calls (snd (evaluate
       [\<lparr>samples = [(0, 0), (1, 0)], loss_val = 1, acc1 = 50, acc3 = 100, f1 = 2 / 3\<rparr>,
        \<lparr>samples = [(1, 1)], loss_val = 2, acc1 = 100, acc3 = 100, f1 = 1\<rparr>]
       \<lparr>accum_iter = 1, data = ''RISE''\<rparr> False False None None
       (idle\<lparr>grad_buffer := [5], opt_steps := [[3, 4]]\<rparr>)))) \<and>
   grad_buffer (snd (evaluate
       [\<lparr>samples = [(0, 0), (1, 0)], loss_val = 1, acc1 = 50, acc3 = 100, f1 = 2 / 3\<rparr>,
        \<lparr>samples = [(1, 1)], loss_val = 2, acc1 = 100, acc3 = 100, f1 = 1\<rparr>]
       \<lparr>accum_iter = 1, data = ''RISE''\<rparr> False False None None
       (idle\<lparr>grad_buffer := [5], opt_steps := [[3, 4]]\<rparr>))) = [5] \<and>
   opt_steps (snd (evaluate
       [\<lparr>samples = [(0, 0), (1, 0)], loss_val = 1, acc1 = 50, acc3 = 100, f1 = 2 / 3\<rparr>,
        \<lparr>samples = [(1, 1)], loss_val = 2, acc1 = 100, acc3 = 100, f1 = 1\<rparr>]
       \<lparr>accum_iter = 1, data = ''RISE''\<rparr> False False None None
       (idle\<lparr>grad_buffer := [5], opt_steps := [[3, 4]]\<rparr>))) = [[3, 4]]"
  using evaluate_no_gradient[OF example_eval]
  by (simp add: example_eval)

lemma some_samples: "(\<exists>batch\<in>set bs. samples batch \<noteq> []) \<longleftrightarrow> concat (map samples bs) \<noteq> []"
  by simp

lemma evaluate_unbound:
  assumes ne: "concat (map samples bs) \<noteq> []"
    and unknown: "data args \<noteq> ''UCIHAR'' \<and> data args \<noteq> ''RISE''"
  shows "\<exists>p s2.
     calls s2 = ModelEval # concat (map (\<lambda>i. [Forward i False False, Criterion i]) [0..<length bs])
                  @ [Synchronize, Print p] \<and>
     evaluate bs args True col name title s0 =
       (Inl (UnboundLocalError ''labels''),
        s2\<lparr>calls := calls s2 @ [Figure], grad_enabled := grad_enabled s0\<rparr>)"
proof -
  obtain p s2 where s2:
    "calls s2 = ModelEval # concat (map (\<lambda>i. [Forward i False False, Criterion i]) [0..<length bs])
                  @ [Synchronize, Print p]"
    "concat (preds s2) = map fst (concat (map samples bs))"
    and ev: "evaluate bs args True col name title s0 =
       (case confusion_plot args col name title s2 of
          Inl (e, s) \<Rightarrow> (Inl e, s\<lparr>grad_enabled := grad_enabled s0\<rparr>)
        | Inr s \<Rightarrow>
            (Inr [(''F1'', sum_list (map f1 bs) / real (length bs)),
                  (''loss'', sum_list (map loss_val bs) / real (length bs)),
                  (''acc1'', sum_list (map (\<lambda>b. acc1 b * real (length (samples b))) bs)
                       / real (length (concat (map samples bs)))),
                  (''acc3'', sum_list (map (\<lambda>b. acc3 b * real (length (samples b))) bs)
                       / real (length (concat (map samples bs))))],
             s\<lparr>grad_enabled := grad_enabled s0\<rparr>))"
    by (rule evaluate_plot_unfold[OF ne, of s0]) blast
  from s2(2) ne have "concat (preds s2) \<noteq> []" by simp
  from confusion_plot_cases[OF this, of args col name title] unknown
  have "confusion_plot args col name title s2 =
      Inl (UnboundLocalError ''labels'', s2\<lparr>calls := calls s2 @ [Figure]\<rparr>)" by simp
  with ev have "evaluate bs args True col name title s0 =
       (Inl (UnboundLocalError ''labels''),
        s2\<lparr>calls := calls s2 @ [Figure], grad_enabled := grad_enabled s0\<rparr>)" by simp
  with s2(1) show ?thesis by blast
qed

text \<open>
  C8 as stated fails: with no sample to evaluate the call ends in a division by zero
  (the summary line at 150 reads the global average of a meter that counted nothing, and
  line 168 divides by the number of predictions) before the plot is reached.
\<close>

theorem evaluate_unknown_dataset_counterexample:
  "fst (evaluate [] \<lparr>accum_iter = 1, data = ''OTHER''\<rparr> True False None None idle) = Inl ZeroDivisionError \<and>
   fst (evaluate [] \<lparr>accum_iter = 1, data = ''OTHER''\<rparr> True False None None idle)
     \<noteq> Inl (UnboundLocalError ''labels'')"
  by (simp add: evaluate_no_samples)

text \<open>
  C8, amended. If \<^verbatim>\<open>evaluate\<close> is called with \<^verbatim>\<open>confusion_matrix_plot\<close> true, a dataset name
  that is neither \<^verbatim>\<open>UCIHAR\<close> nor \<^verbatim>\<open>RISE\<close>, and a data loader with at least one sample, then
  \<^verbatim>\<open>labels\<close> is unbound when the heatmap call at 173 reads it: the call ends with
  \<^verbatim>\<open>UnboundLocalError\<close>, after \<^verbatim>\<open>plt.figure\<close>, with no heatmap drawn, no file saved and no
  metrics returned.
\<close>

theorem evaluate_unknown_dataset_unbound_labels:
  assumes run: "evaluate data_loader args True collapse_labels name title s0 = (r, s')"
    and unknown: "data args \<noteq> ''UCIHAR'' \<and> data args \<noteq> ''RISE''"
    and some: "\<exists>batch\<in>set data_loader. samples batch \<noteq> []"
  shows "r = Inl (UnboundLocalError ''labels'') \<and> last (calls s') = Figure \<and>
         [path. SaveFig path \<leftarrow> calls s'] = [] \<and>
         [labels. Heatmap y_true y_pred labels \<leftarrow> calls s'] = []"
proof -
  from some have ne: "concat (map samples data_loader) \<noteq> []" by simp
  from evaluate_unbound[OF ne unknown, of collapse_labels name title s0] obtain p s2 where
    s2: "calls s2 = ModelEval #
           concat (map (\<lambda>i. [Forward i False False, Criterion i]) [0..<length data_loader])
             @ [Synchronize, Print p]"
    and ev: "evaluate data_loader args True collapse_labels name title s0 =
       (Inl (UnboundLocalError ''labels''),
        s2\<lparr>calls := calls s2 @ [Figure], grad_enabled := grad_enabled s0\<rparr>)"
    by blast
  from ev run have r: "r = Inl (UnboundLocalError ''labels'')"
    and s': "s' = s2\<lparr>calls := calls s2 @ [Figure], grad_enabled := grad_enabled s0\<rparr>"
    by simp_all
  from s' s2 have "calls s' = ModelEval #
      concat (map (\<lambda>i. [Forward i False False, Criterion i]) [0..<length data_loader])
        @ [Synchronize, Print p, Figure]" by simp
  with r show ?thesis by (simp add: pass_no_savefig pass_no_heatmap)
qed

theorem evaluate_unknown_dataset_unbound_labels_witness:
  "data \<lparr>accum_iter = 1, data = ''OTHER''\<rparr> \<noteq> ''UCIHAR'' \<and>
   data \<lparr>accum_iter = 1, data = ''OTHER''\<rparr> \<noteq> ''RISE'' \<and>
   fst (evaluate [\<lparr>samples = [(0, 0), (1, 0)], loss_val = 1, acc1 = 50, acc3 = 100, f1 = 2 / 3\<rparr>]
          \<lparr>accum_iter = 1, data = ''OTHER''\<rparr> True False None None idle)
     = Inl (UnboundLocalError ''labels'') \<and>
   last (calls (snd (evaluate [\<lparr>samples = [(0, 0), (1, 0)], loss_val = 1, acc1 = 50, acc3 = 100, f1 = 2 / 3\<rparr>]
          \<lparr>accum_iter = 1, data = ''OTHER''\<rparr> True False None None idle))) = Figure"
  using evaluate_unknown_dataset_unbound_labels[OF prod.collapse[symmetric],
      of "\<lparr>accum_iter = 1, data = ''OTHER''\<rparr>"
         "[\<lparr>samples = [(0, 0), (1, 0)], loss_val = 1, acc1 = 50, acc3 = 100, f1 = 2 / 3\<rparr>]"
         False None None idle]
  by simp

lemma evaluate_plot_returns:
  assumes run: "evaluate bs args True col name title s0 = (r, s')"
    and ne: "concat (map samples bs) \<noteq> []"
    and known: "data args = ''UCIHAR'' \<or> data args = ''RISE''"
  shows "\<exists>p s1.
    calls s1 = ModelEval # concat (map (\<lambda>i. [Forward i False False, Criterion i]) [0..<length bs])
       @ [Synchronize, Print p, Figure,
          Heatmap (map snd (concat (map samples bs))) (map fst (concat (map samples bs)))
             (if data args = ''RISE''
              then [''sedentary'', ''standing'', ''stepping'', ''cycling'', ''primary_lying'',
                    ''secondary_lying'', ''seated_transport'']
              else [''Transition'', ''Walking'', ''Walking-upstairs'', ''Walking-downstairs'',
                    ''Sitting'', ''Standing'', ''Laying'']),
          XLabel ''Predicted Labels'', YLabel ''True Labels'',
          Title (py_str title @ ''; Accuracy = '')
            (real (accordance (map fst (concat (map samples bs))) (map snd (concat (map samples bs))))
               / real (length (concat (map samples bs)))),
          Show, SaveFig (plots_dir @ py_str name @ ''_confusion_matrix.png'')] \<and>
    (r, s') =
      (case (if col then collapse_plot (map fst (concat (map samples bs)))
                           (map snd (concat (map samples bs))) name title s1
             else Inr s1) of
         Inl (e, s) \<Rightarrow> (Inl e, s\<lparr>grad_enabled := grad_enabled s0\<rparr>)
       | Inr s \<Rightarrow>
           (Inr [(''F1'', sum_list (map f1 bs) / real (length bs)),
                 (''loss'', sum_list (map loss_val bs) / real (length bs)),
                 (''acc1'', sum_list (map (\<lambda>b. acc1 b * real (length (samples b))) bs)
                      / real (length (concat (map samples bs)))),
                 (''acc3'', sum_list (map (\<lambda>b. acc3 b * real (length (samples b))) bs)
                      / real (length (concat (map samples bs))))],
            s\<lparr>grad_enabled := grad_enabled s0\<rparr>))"
proof -
  obtain p s2 where s2:
    "calls s2 = ModelEval # concat (map (\<lambda>i. [Forward i False False, Criterion i]) [0..<length bs])
                  @ [Synchronize, Print p]"
    "concat (preds s2) = map fst (concat (map samples bs))"
    "concat (targets s2) = map snd (concat (map samples bs))"
    and ev: "evaluate bs args True col name title s0 =
       (case confusion_plot args col name title s2 of
          Inl (e, s) \<Rightarrow> (Inl e, s\<lparr>grad_enabled := grad_enabled s0\<rparr>)
        | Inr s \<Rightarrow>
            (Inr [(''F1'', sum_list (map f1 bs) / real (length bs)),
                  (''loss'', sum_list (map loss_val bs) / real (length bs)),
                  (''acc1'', sum_list (map (\<lambda>b. acc1 b * real (length (samples b))) bs)
                       / real (length (concat (map samples bs)))),
                  (''acc3'', sum_list (map (\<lambda>b. acc3 b * real (length (samples b))) bs)
                       / real (length (concat (map samples bs))))],
             s\<lparr>grad_enabled := grad_enabled s0\<rparr>))"
    by (rule evaluate_plot_unfold[OF ne, of s0]) blast
  let ?s1 = "s2\<lparr>calls := calls s2 @
          [Figure,
           Heatmap (concat (targets s2)) (concat (preds s2))
             (if data args = ''RISE''
              then [''sedentary'', ''standing'', ''stepping'', ''cycling'', ''primary_lying'',
                    ''secondary_lying'', ''seated_transport'']
              else [''Transition'', ''Walking'', ''Walking-upstairs'', ''Walking-downstairs'',
                    ''Sitting'', ''Standing'', ''Laying'']),
           XLabel ''Predicted Labels'', YLabel ''True Labels'',
           Title (py_str title @ ''; Accuracy = '')
             (real (accordance (concat (preds s2)) (concat (targets s2))) / real (length (concat (preds s2)))),
           Show, SaveFig (plots_dir @ py_str name @ ''_confusion_matrix.png'')]\<rparr>"
  from s2(2) ne have "concat (preds s2) \<noteq> []" by simp
  from confusion_plot_cases[OF this, of args col name title] known
  have cp: "confusion_plot args col name title s2 =
     (if col then collapse_plot (concat (preds s2)) (concat (targets s2)) name title ?s1 else Inr ?s1)"
    by (auto simp: Let_def)
  show ?thesis
    apply (rule exI[of _ p])
    apply (rule exI[of _ ?s1])
    using ev run cp s2 by simp
qed



lemma example_plot:
  "evaluate [\<lparr>samples = [(0, 0), (2, 0)], loss_val = 1, acc1 = 50, acc3 = 100, f1 = 2 / 3\<rparr>,
             \<lparr>samples = [(3, 1)], loss_val = 2, acc1 = 0, acc3 = 100, f1 = 0\<rparr>]
      \<lparr>accum_iter = 1, data = ''RISE''\<rparr> True True (Some ''run'') (Some ''T'') idle
   = (Inr [(''F1'', 1 / 3), (''loss'', 3 / 2), (''acc1'', 100 / 3), (''acc3'', 100)],
      \<lparr>calls = [ModelEval, Forward 0 False False, Criterion 0, Forward 1 False False, Criterion 1,
                Synchronize, Print (TestSummary (100 / 3) 100 (3 / 2) (1 / 3)),
                Figure,
                Heatmap [0, 0, 1] [0, 2, 3]
                  [''sedentary'', ''standing'', ''stepping'', ''cycling'', ''primary_lying'',
                   ''secondary_lying'', ''seated_transport''],
                XLabel ''Predicted Labels'', YLabel ''True Labels'',
                Title ''T; Accuracy = '' (1 / 3), Show,
                SaveFig ''/niddk-data-central/P2/mae_hr/MAE_Accelerometer/plots/run_confusion_matrix.png'',
                Figure,
                Heatmap [0, 0, 1] [0, 1, 1] [''Sedentary'', ''Active''],
                XLabel ''Predicted Labels'', YLabel ''True Labels'',
                Title ''T(binary); Accuracy = '' (2 / 3), Show,
                SaveFig ''/niddk-data-central/P2/mae_hr/MAE_Accelerometer/plots/run_bin_confusion_matrix.png''],
       meters = [(''F1'', [(2 / 3, 1), (0, 1)]), (''loss'', [(1, 1), (2, 1)]),
                 (''acc1'', [(50, 2), (0, 1)]), (''acc3'', [(100, 2), (100, 1)])],
       preds = [[0, 2], [3]], targets = [[0, 0], [1]], training = False, grad_enabled = True,
       grad_buffer = [], opt_steps = []\<rparr>)"
  by (simp add: evaluate_def evaluate_body_def eval_pass_def eval_step_def print_summary_def
        meter_global_avg_def getitem_def global_avg_def count_def total_def logger_update_def
        confusion_plot_def collapse_plot_def mapping_def py_truediv_def accordance_def
        py_str_def plots_dir_def emit_def idle_def Let_def)


text \<open>
  C5. The binary collapsing step of \<^verbatim>\<open>evaluate\<close> maps every accumulated prediction and then
  every accumulated target through the dictionary of line 182, which is defined on
  0..6 exactly (1, 2 and 3 go to 1, the rest to 0). Once the step is reached (the flags
  are set, the dataset name is known, there is a sample): if every prediction and target
  lies in 0..6 no lookup fails, the call returns and the second heatmap is that of the
  mapped lists; otherwise the call ends with \<^verbatim>\<open>KeyError\<close> for a value outside 0..6, raised
  out of \<^verbatim>\<open>evaluate\<close>, with only the first image saved.
\<close>

theorem evaluate_collapse_labels:
  assumes run: "evaluate data_loader args True True name title s0 = (r, s')"
    and known: "data args = ''UCIHAR'' \<or> data args = ''RISE''"
    and some: "\<exists>batch\<in>set data_loader. samples batch \<noteq> []"
  shows "(\<forall>x. mapping x = (if 0 \<le> x \<and> x \<le> 6 then Some (if x = 1 \<or> x = 2 \<or> x = 3 then 1 else 0) else None)) \<and>
         ((\<forall>x\<in>set (map fst (concat (map samples data_loader)) @ map snd (concat (map samples data_loader))).
              0 \<le> x \<and> x \<le> 6) \<longrightarrow>
            (\<exists>d. r = Inr d) \<and>
            Heatmap (map (\<lambda>x. if x = 1 \<or> x = 2 \<or> x = 3 then 1 else 0) (map snd (concat (map samples data_loader))))
                    (map (\<lambda>x. if x = 1 \<or> x = 2 \<or> x = 3 then 1 else 0) (map fst (concat (map samples data_loader))))
                    [''Sedentary'', ''Active''] \<in> set (calls s')) \<and>
         (\<not> (\<forall>x\<in>set (map fst (concat (map samples data_loader)) @ map snd (concat (map samples data_loader))).
              0 \<le> x \<and> x \<le> 6) \<longrightarrow>
            (\<exists>x\<in>set (map fst (concat (map samples data_loader)) @ map snd (concat (map samples data_loader))).
               (x < 0 \<or> 6 < x) \<and> r = Inl (KeyError x)) \<and>
            [path. SaveFig path \<leftarrow> calls s'] = [plots_dir @ py_str name @ ''_confusion_matrix.png''])"
proof -
  let ?ps = "map fst (concat (map samples data_loader))"
  let ?ts = "map snd (concat (map samples data_loader))"
  let ?c = "\<lambda>x::int. if x = 1 \<or> x = 2 \<or> x = 3 then 1 else (0::int)"
  from some have ne: "concat (map samples data_loader) \<noteq> []" by simp
  then have pne: "?ps \<noteq> []" by simp
  from evaluate_plot_returns[OF run ne known] obtain p s1 where
    c1: "calls s1 = ModelEval #
       concat (map (\<lambda>i. [Forward i False False, Criterion i]) [0..<length data_loader])
       @ [Synchronize, Print p, Figure,
          Heatmap ?ts ?ps
             (if data args = ''RISE''
              then [''sedentary'', ''standing'', ''stepping'', ''cycling'', ''primary_lying'',
                    ''secondary_lying'', ''seated_transport'']
              else [''Transition'', ''Walking'', ''Walking-upstairs'', ''Walking-downstairs'',
                    ''Sitting'', ''Standing'', ''Laying'']),
          XLabel ''Predicted Labels'', YLabel ''True Labels'',
          Title (py_str title @ ''; Accuracy = '')
            (real (accordance ?ps ?ts) / real (length (concat (map samples data_loader)))),
          Show, SaveFig (plots_dir @ py_str name @ ''_confusion_matrix.png'')]"
    and res: "(r, s') =
      (case collapse_plot ?ps ?ts name title s1 of
         Inl (e, s) \<Rightarrow> (Inl e, s\<lparr>grad_enabled := grad_enabled s0\<rparr>)
       | Inr s \<Rightarrow>
           (Inr [(''F1'', sum_list (map f1 data_loader) / real (length data_loader)),
                 (''loss'', sum_list (map loss_val data_loader) / real (length data_loader)),
                 (''acc1'', sum_list (map (\<lambda>b. acc1 b * real (length (samples b))) data_loader)
                      / real (length (concat (map samples data_loader)))),
                 (''acc3'', sum_list (map (\<lambda>b. acc3 b * real (length (samples b))) data_loader)
                      / real (length (concat (map samples data_loader))))],
            s\<lparr>grad_enabled := grad_enabled s0\<rparr>))"
    by auto
  note cp = collapse_plot_cases[OF pne, of ?ts name title s1]
  have good: "(\<exists>d. r = Inr d) \<and> Heatmap (map ?c ?ts) (map ?c ?ps) [''Sedentary'', ''Active''] \<in> set (calls s')"
    if "\<forall>x\<in>set (?ps @ ?ts). 0 \<le> x \<and> x \<le> 6"
  proof -
    from that have rp: "\<forall>x\<in>set ?ps. 0 \<le> x \<and> x \<le> 6" and rt: "\<forall>x\<in>set ?ts. 0 \<le> x \<and> x \<le> 6"
      by (simp_all only: set_append ball_Un) blast+
    have "collapse ?ps = Inr (map ?c ?ps)" "collapse ?ts = Inr (map ?c ?ts)"
      using collapse_ok[OF rp] collapse_ok[OF rt] by blast+
    with cp res show ?thesis by auto
  qed
  have bad: "(\<exists>x\<in>set (?ps @ ?ts). (x < 0 \<or> 6 < x) \<and> r = Inl (KeyError x)) \<and>
             [path. SaveFig path \<leftarrow> calls s'] = [plots_dir @ py_str name @ ''_confusion_matrix.png'']"
    if out: "\<not> (\<forall>x\<in>set (?ps @ ?ts). 0 \<le> x \<and> x \<le> 6)"
  proof (cases "\<forall>x\<in>set ?ps. 0 \<le> x \<and> x \<le> 6")
    case False
    from collapse_bad[OF False] obtain x where x: "x \<in> set ?ps" "x < 0 \<or> 6 < x"
      "collapse ?ps = Inl (KeyError x)" by blast
    with cp res have "r = Inl (KeyError x)" "calls s' = calls s1" by auto
    with x c1 show ?thesis by (auto simp: pass_no_savefig)
  next
    case True
    then have okp: "collapse ?ps = Inr (map ?c ?ps)" by (rule collapse_ok)
    from True out have "\<not> (\<forall>x\<in>set ?ts. 0 \<le> x \<and> x \<le> 6)" by auto
    from collapse_bad[OF this] obtain x where x: "x \<in> set ?ts" "x < 0 \<or> 6 < x"
      "collapse ?ts = Inl (KeyError x)" by blast
    with okp cp res have "r = Inl (KeyError x)" "calls s' = calls s1" by auto
    with x c1 show ?thesis by (auto simp: pass_no_savefig)
  qed
  from mapping_eq good bad show ?thesis by blast
qed

lemma example_key_error:
  "evaluate [\<lparr>samples = [(0, 0), (2, 7)], loss_val = 1, acc1 = 50, acc3 = 100, f1 = 2 / 3\<rparr>]
      \<lparr>accum_iter = 1, data = ''RISE''\<rparr> True True (Some ''run'') (Some ''T'') idle
   = (Inl (KeyError 7),
      \<lparr>calls = [ModelEval, Forward 0 False False, Criterion 0,
                Synchronize, Print (TestSummary 50 100 1 (2 / 3)),
                Figure,
                Heatmap [0, 7] [0, 2]
                  [''sedentary'', ''standing'', ''stepping'', ''cycling'', ''primary_lying'',
                   ''secondary_lying'', ''seated_transport''],
                XLabel ''Predicted Labels'', YLabel ''True Labels'',
                Title ''T; Accuracy = '' (1 / 2), Show,
                SaveFig ''/niddk-data-central/P2/mae_hr/MAE_Accelerometer/plots/run_confusion_matrix.png''],
       meters = [(''F1'', [(2 / 3, 1)]), (''loss'', [(1, 1)]),
                 (''acc1'', [(50, 2)]), (''acc3'', [(100, 2)])],
       preds = [[0, 2]], targets = [[0, 7]], training = False, grad_enabled = True,
       grad_buffer = [], opt_steps = []\<rparr>)"
  by (simp add: evaluate_def evaluate_body_def eval_pass_def eval_step_def print_summary_def
        meter_global_avg_def getitem_def global_avg_def count_def total_def logger_update_def
        confusion_plot_def collapse_plot_def mapping_def py_truediv_def accordance_def
        py_str_def plots_dir_def emit_def idle_def Let_def)

theorem evaluate_collapse_labels_witness:
  "(data \<lparr>accum_iter = 1, data = ''RISE''\<rparr> = ''UCIHAR'' \<or> data \<lparr>accum_iter = 1, data = ''RISE''\<rparr> = ''RISE'') \<and>
   Heatmap [0, 0, 1] [0, 1, 1] [''Sedentary'', ''Active''] \<in> set (calls (snd (evaluate
        [\<lparr>samples = [(0, 0), (2, 0)], loss_val = 1, acc1 = 50, acc3 = 100, f1 = 2 / 3\<rparr>,
         \<lparr>samples = [(3, 1)], loss_val = 2, acc1 = 0, acc3 = 100, f1 = 0\<rparr>]
        \<lparr>accum_iter = 1, data = ''RISE''\<rparr> True True (Some ''run'') (Some ''T'') idle))) \<and>
   (\<exists>x\<in>{7}. fst (evaluate [\<lparr>samples = [(0, 0), (2, 7)], loss_val = 1, acc1 = 50, acc3 = 100, f1 = 2 / 3\<rparr>]
      \<lparr>accum_iter = 1, data = ''RISE''\<rparr> True True (Some ''run'') (Some ''T'') idle) = Inl (KeyError x))"
  using evaluate_collapse_labels[OF example_plot] evaluate_collapse_labels[OF example_key_error]
  by (simp add: example_plot example_key_error)

subsection \<open>What the two functions return\<close>

lemma evaluate_returned:
  assumes run: "evaluate bs args plot col name title s0 = (Inr d, s')"
  shows "concat (map samples bs) \<noteq> []"
    and "d = [(''F1'', sum_list (map f1 bs) / real (length bs)),
              (''loss'', sum_list (map loss_val bs) / real (length bs)),
              (''acc1'', sum_list (map (\<lambda>b. acc1 b * real (length (samples b))) bs)
                   / real (length (concat (map samples bs)))),
              (''acc3'', sum_list (map (\<lambda>b. acc3 b * real (length (samples b))) bs)
                   / real (length (concat (map samples bs))))]"
    and "meters s' =
       [(''F1'', map (\<lambda>b. (f1 b, 1)) bs), (''loss'', map (\<lambda>b. (loss_val b, 1)) bs),
        (''acc1'', map (\<lambda>b. (acc1 b, length (samples b))) bs),
        (''acc3'', map (\<lambda>b. (acc3 b, length (samples b))) bs)]"
proof -
  show ne: "concat (map samples bs) \<noteq> []"
  proof
    assume "concat (map samples bs) = []"
    from evaluate_no_samples[OF this, of args plot col name title s0] run show False by simp
  qed
  obtain p s2 where
    m2: "meters s2 =
       [(''F1'', map (\<lambda>b. (f1 b, 1)) bs), (''loss'', map (\<lambda>b. (loss_val b, 1)) bs),
        (''acc1'', map (\<lambda>b. (acc1 b, length (samples b))) bs),
        (''acc3'', map (\<lambda>b. (acc3 b, length (samples b))) bs)]"
    and evT: "evaluate bs args True col name title s0 =
       (case confusion_plot args col name title s2 of
          Inl (e, s) \<Rightarrow> (Inl e, s\<lparr>grad_enabled := grad_enabled s0\<rparr>)
        | Inr s \<Rightarrow>
            (Inr [(''F1'', sum_list (map f1 bs) / real (length bs)),
                  (''loss'', sum_list (map loss_val bs) / real (length bs)),
                  (''acc1'', sum_list (map (\<lambda>b. acc1 b * real (length (samples b))) bs)
                       / real (length (concat (map samples bs)))),
                  (''acc3'', sum_list (map (\<lambda>b. acc3 b * real (length (samples b))) bs)
                       / real (length (concat (map samples bs))))],
             s\<lparr>grad_enabled := grad_enabled s0\<rparr>))"
    and evF: "evaluate bs args False col name title s0 =
            (Inr [(''F1'', sum_list (map f1 bs) / real (length bs)),
                  (''loss'', sum_list (map loss_val bs) / real (length bs)),
                  (''acc1'', sum_list (map (\<lambda>b. acc1 b * real (length (samples b))) bs)
                       / real (length (concat (map samples bs)))),
                  (''acc3'', sum_list (map (\<lambda>b. acc3 b * real (length (samples b))) bs)
                       / real (length (concat (map samples bs))))],
             s2\<lparr>grad_enabled := grad_enabled s0\<rparr>)"
    by (rule evaluate_plot_unfold[OF ne, of s0]) blast
  have both: "d = [(''F1'', sum_list (map f1 bs) / real (length bs)),
              (''loss'', sum_list (map loss_val bs) / real (length bs)),
              (''acc1'', sum_list (map (\<lambda>b. acc1 b * real (length (samples b))) bs)
                   / real (length (concat (map samples bs)))),
              (''acc3'', sum_list (map (\<lambda>b. acc3 b * real (length (samples b))) bs)
                   / real (length (concat (map samples bs))))] \<and> meters s' = meters s2"
  proof (cases plot)
    case False
    with run evF show ?thesis by auto
  next
    case True
    show ?thesis
    proof (cases "confusion_plot args col name title s2")
      case (Inl es)
      with run evT True show ?thesis by (cases es) simp
    next
      case (Inr s3)
      then have "meters s3 = meters s2"
        using confusion_plot_fields(2)[of args col name title s2] by simp
      with run evT True Inr show ?thesis by auto
    qed
  qed
  then show "d = [(''F1'', sum_list (map f1 bs) / real (length bs)),
              (''loss'', sum_list (map loss_val bs) / real (length bs)),
              (''acc1'', sum_list (map (\<lambda>b. acc1 b * real (length (samples b))) bs)
                   / real (length (concat (map samples bs)))),
              (''acc3'', sum_list (map (\<lambda>b. acc3 b * real (length (samples b))) bs)
                   / real (length (concat (map samples bs))))]" by blast
  from both m2 show "meters s' =
       [(''F1'', map (\<lambda>b. (f1 b, 1)) bs), (''loss'', map (\<lambda>b. (loss_val b, 1)) bs),
        (''acc1'', map (\<lambda>b. (acc1 b, length (samples b))) bs),
        (''acc3'', map (\<lambda>b. (acc3 b, length (samples b))) bs)]" by simp
qed

lemma example_f1:
  "weighted_f1 [(0, 0), (0, 0)] = 1" "weighted_f1 [(1, 0), (1, 1)] = 1 / 3"
  "weighted_f1 [(0, 0), (0, 0), (1, 0), (1, 1)] = 23 / 30"
  by (simp_all add: weighted_f1_def class_f1_def Let_def)

lemma example_two_batches:
  "evaluate [\<lparr>samples = [(0, 0), (0, 0)], loss_val = 0, acc1 = 100, acc3 = 100, f1 = 1\<rparr>,
             \<lparr>samples = [(1, 0), (1, 1)], loss_val = 1, acc1 = 50, acc3 = 100, f1 = 1 / 3\<rparr>]
      \<lparr>accum_iter = 1, data = ''RISE''\<rparr> False False None None idle
   = (Inr [(''F1'', 2 / 3), (''loss'', 1 / 2), (''acc1'', 75), (''acc3'', 100)],
      \<lparr>calls = [ModelEval, Forward 0 False False, Criterion 0, Forward 1 False False, Criterion 1,
                Synchronize, Print (TestSummary 75 100 (1 / 2) (2 / 3))],
       meters = [(''F1'', [(1, 1), (1 / 3, 1)]), (''loss'', [(0, 1), (1, 1)]),
                 (''acc1'', [(100, 2), (50, 2)]), (''acc3'', [(100, 2), (100, 2)])],
       preds = [[0, 0], [1, 1]], targets = [[0, 0], [0, 1]], training = False, grad_enabled = True,
       grad_buffer = [], opt_steps = []\<rparr>)"
  by (simp add: evaluate_def evaluate_body_def eval_pass_def eval_step_def print_summary_def
        meter_global_avg_def getitem_def global_avg_def count_def total_def logger_update_def
        emit_def idle_def Let_def)

text \<open>
  C10. The dictionary \<^verbatim>\<open>evaluate\<close> returns averages with two different weights: \<^verbatim>\<open>acc1\<close> and
  \<^verbatim>\<open>acc3\<close> are means over the batches weighted by the size of each batch, \<^verbatim>\<open>F1\<close> and
  \<^verbatim>\<open>loss\<close> are plain means of the per-batch values, each batch counting once. The returned
  \<^verbatim>\<open>F1\<close> is therefore not the F1 score of all predictions taken together: there is a data
  loader, each batch carrying its own weighted F1, for which the two differ.
\<close>

theorem evaluate_metric_weights:
  assumes run: "evaluate data_loader args plot collapse_labels name title s0 = (Inr d, s')"
  shows "d = [(''F1'', (\<Sum>b\<leftarrow>data_loader. f1 b) / real (length data_loader)),
              (''loss'', (\<Sum>b\<leftarrow>data_loader. loss_val b) / real (length data_loader)),
              (''acc1'', (\<Sum>b\<leftarrow>data_loader. acc1 b * real (length (samples b)))
                           / real (\<Sum>b\<leftarrow>data_loader. length (samples b))),
              (''acc3'', (\<Sum>b\<leftarrow>data_loader. acc3 b * real (length (samples b)))
                           / real (\<Sum>b\<leftarrow>data_loader. length (samples b)))] \<and>
         (\<exists>batches.
            (\<forall>b\<in>set batches. f1 b = weighted_f1 (samples b)) \<and>
            (\<exists>d' s''. evaluate batches \<lparr>accum_iter = 1, data = ''RISE''\<rparr> False False None None idle = (Inr d', s'') \<and>
               map_of d' ''F1'' \<noteq> Some (weighted_f1 (concat (map samples batches)))))"
proof -
  have len: "length (concat (map samples data_loader)) = (\<Sum>b\<leftarrow>data_loader. length (samples b))"
    by (simp add: length_concat comp_def)
  from evaluate_returned(2)[OF run] len
  have first: "d = [(''F1'', (\<Sum>b\<leftarrow>data_loader. f1 b) / real (length data_loader)),
              (''loss'', (\<Sum>b\<leftarrow>data_loader. loss_val b) / real (length data_loader)),
              (''acc1'', (\<Sum>b\<leftarrow>data_loader. acc1 b * real (length (samples b)))
                           / real (\<Sum>b\<leftarrow>data_loader. length (samples b))),
              (''acc3'', (\<Sum>b\<leftarrow>data_loader. acc3 b * real (length (samples b)))
                           / real (\<Sum>b\<leftarrow>data_loader. length (samples b)))]"
    by simp
  let ?ex = "[\<lparr>samples = [(0, 0), (0, 0)], loss_val = 0, acc1 = 100, acc3 = 100, f1 = 1\<rparr>,
             \<lparr>samples = [(1, 0), (1, 1)], loss_val = 1, acc1 = 50, acc3 = 100, f1 = 1 / 3\<rparr>]"
  have "\<forall>b\<in>set ?ex. f1 b = weighted_f1 (samples b)"
    by (simp add: example_f1)
  moreover have "map_of [(''F1'', 2 / 3), (''loss'', 1 / 2), (''acc1'', 75), (''acc3'', 100 :: real)] ''F1''
      \<noteq> Some (weighted_f1 (concat (map samples ?ex)))"
    by (simp add: example_f1)
  ultimately have second: "\<exists>batches.
            (\<forall>b\<in>set batches. f1 b = weighted_f1 (samples b)) \<and>
            (\<exists>d' s''. evaluate batches \<lparr>accum_iter = 1, data = ''RISE''\<rparr> False False None None idle = (Inr d', s'') \<and>
               map_of d' ''F1'' \<noteq> Some (weighted_f1 (concat (map samples batches))))"
    using example_two_batches by blast
  from first second show ?thesis by blast
qed

theorem evaluate_metric_weights_witness:
  "fst (evaluate [\<lparr>samples = [(0, 0), (0, 0)], loss_val = 0, acc1 = 100, acc3 = 100, f1 = 1\<rparr>,
                  \<lparr>samples = [(1, 0), (1, 1)], loss_val = 1, acc1 = 50, acc3 = 100, f1 = 1 / 3\<rparr>]
         \<lparr>accum_iter = 1, data = ''RISE''\<rparr> False False None None idle)
     = Inr [(''F1'', (1 + 1 / 3) / 2), (''loss'', (0 + 1) / 2),
            (''acc1'', (100 * 2 + 50 * 2) / 4), (''acc3'', (100 * 2 + 100 * 2) / 4)]"
  using evaluate_metric_weights[OF example_two_batches]
  by (simp add: example_two_batches)

lemma report_no_forward:
  "list_all report_call tail \<Longrightarrow> [k. Forward k t g \<leftarrow> tail] = []"
proof (induction tail)
  case Nil
  then show ?case by simp
next
  case (Cons e es)
  then show ?case by (cases e) simp_all
qed

lemma pass_forwards:
  "[k. Forward k t g \<leftarrow> concat (map (\<lambda>i. [Forward i a b, Criterion i]) xs)] = xs"
  by (induction xs) simp_all

lemma evaluate_forwards:
  "[k. Forward k t g \<leftarrow> calls (snd (evaluate bs args plot col name title s0))] = [0..<length bs]"
proof -
  from evaluate_state(1)[OF prod.collapse[symmetric], of bs args plot col name title s0]
  obtain tail where
    "calls (snd (evaluate bs args plot col name title s0)) =
       ModelEval # concat (map (\<lambda>i. [Forward i False False, Criterion i]) [0..<length bs])
         @ Synchronize # tail" "list_all report_call tail"
    by blast
  then show ?thesis by (simp add: pass_forwards report_no_forward)
qed

lemma evaluate_plot_fst:
  assumes ne: "concat (map samples bs) \<noteq> []"
    and known: "data args = ''UCIHAR'' \<or> data args = ''RISE''"
  shows "fst (evaluate bs args True col name title s0) =
     (if col
      then (case collapse (map fst (concat (map samples bs))) of
              Inl e \<Rightarrow> Inl e
            | Inr pb \<Rightarrow>
                (case collapse (map snd (concat (map samples bs))) of
                   Inl e \<Rightarrow> Inl e
                 | Inr tb \<Rightarrow>
                     Inr [(''F1'', sum_list (map f1 bs) / real (length bs)),
                          (''loss'', sum_list (map loss_val bs) / real (length bs)),
                          (''acc1'', sum_list (map (\<lambda>b. acc1 b * real (length (samples b))) bs)
                               / real (length (concat (map samples bs)))),
                          (''acc3'', sum_list (map (\<lambda>b. acc3 b * real (length (samples b))) bs)
                               / real (length (concat (map samples bs))))]))
      else Inr [(''F1'', sum_list (map f1 bs) / real (length bs)),
                (''loss'', sum_list (map loss_val bs) / real (length bs)),
                (''acc1'', sum_list (map (\<lambda>b. acc1 b * real (length (samples b))) bs)
                     / real (length (concat (map samples bs)))),
                (''acc3'', sum_list (map (\<lambda>b. acc3 b * real (length (samples b))) bs)
                     / real (length (concat (map samples bs))))])"
proof -
  from ne have pne: "map fst (concat (map samples bs)) \<noteq> []" by simp
  from evaluate_plot_returns[where bs = bs and args = args and col = col and name = name
      and title = title and ?s0.0 = s0, OF prod.collapse[symmetric] ne known]
  obtain p s1 where res: "(fst (evaluate bs args True col name title s0),
        snd (evaluate bs args True col name title s0)) =
      (case (if col then collapse_plot (map fst (concat (map samples bs)))
                           (map snd (concat (map samples bs))) name title s1
             else Inr s1) of
         Inl (e, s) \<Rightarrow> (Inl e, s\<lparr>grad_enabled := grad_enabled s0\<rparr>)
       | Inr s \<Rightarrow>
           (Inr [(''F1'', sum_list (map f1 bs) / real (length bs)),
                 (''loss'', sum_list (map loss_val bs) / real (length bs)),
                 (''acc1'', sum_list (map (\<lambda>b. acc1 b * real (length (samples b))) bs)
                      / real (length (concat (map samples bs)))),
                 (''acc3'', sum_list (map (\<lambda>b. acc3 b * real (length (samples b))) bs)
                      / real (length (concat (map samples bs))))],
            s\<lparr>grad_enabled := grad_enabled s0\<rparr>))"
    by blast
  show ?thesis
  proof (cases col)
    case False
    with res show ?thesis by simp
  next
    case True
    with res collapse_plot_cases[OF pne, of "map snd (concat (map samples bs))" name title s1]
    show ?thesis by (auto split: sum.splits)
  qed
qed

lemma collapse_Inr_iff: "(\<exists>ys. collapse xs = Inr ys) \<longleftrightarrow> (\<forall>x\<in>set xs. 0 \<le> x \<and> x \<le> 6)"
proof
  assume ret: "\<exists>ys. collapse xs = Inr ys"
  show "\<forall>x\<in>set xs. 0 \<le> x \<and> x \<le> 6"
  proof (rule ccontr)
    assume "\<not> (\<forall>x\<in>set xs. 0 \<le> x \<and> x \<le> 6)"
    from collapse_bad[OF this] ret show False by auto
  qed
next
  assume "\<forall>x\<in>set xs. 0 \<le> x \<and> x \<le> 6"
  then show "\<exists>ys. collapse xs = Inr ys" using collapse_ok by blast
qed

lemma evaluate_returns_iff:
  "(\<exists>d. fst (evaluate bs args plot col name title s0) = Inr d) \<longleftrightarrow>
     (\<exists>b\<in>set bs. samples b \<noteq> []) \<and>
     (plot \<longrightarrow> (data args = ''UCIHAR'' \<or> data args = ''RISE'') \<and>
        (col \<longrightarrow> (\<forall>x\<in>set (map fst (concat (map samples bs)) @ map snd (concat (map samples bs))).
                    0 \<le> x \<and> x \<le> 6)))"
proof (cases "concat (map samples bs) = []")
  case True
  from evaluate_no_samples[OF True, of args plot col name title s0] True show ?thesis by simp
next
  case ne: False
  then have some: "\<exists>b\<in>set bs. samples b \<noteq> []" by simp
  show ?thesis
  proof (cases plot)
    case False
    obtain s2 where "evaluate bs args False col name title s0 =
            (Inr [(''F1'', sum_list (map f1 bs) / real (length bs)),
                  (''loss'', sum_list (map loss_val bs) / real (length bs)),
                  (''acc1'', sum_list (map (\<lambda>b. acc1 b * real (length (samples b))) bs)
                       / real (length (concat (map samples bs)))),
                  (''acc3'', sum_list (map (\<lambda>b. acc3 b * real (length (samples b))) bs)
                       / real (length (concat (map samples bs))))],
             s2\<lparr>grad_enabled := grad_enabled s0\<rparr>)"
      by (rule evaluate_plot_unfold[OF ne, of s0]) blast
    with False some show ?thesis by simp
  next
    case True
    show ?thesis
    proof (cases "data args = ''UCIHAR'' \<or> data args = ''RISE''")
      case False
      then have "data args \<noteq> ''UCIHAR'' \<and> data args \<noteq> ''RISE''" by simp
      from evaluate_unbound[OF ne this, where col = col and name = name and title = title and ?s0.0 = s0]
        True False show ?thesis by auto
    next
      case known: True
      note f = evaluate_plot_fst[OF ne known, of col name title s0]
      show ?thesis
      proof (cases col)
        case False
        with f True known some show ?thesis by simp
      next
        case col: True
        have "(\<exists>d. fst (evaluate bs args True col name title s0) = Inr d) \<longleftrightarrow>
           (\<exists>pb. collapse (map fst (concat (map samples bs))) = Inr pb) \<and>
           (\<exists>tb. collapse (map snd (concat (map samples bs))) = Inr tb)"
          unfolding f using col by (auto split: sum.splits)
        also have "\<dots> \<longleftrightarrow> (\<forall>x\<in>set (map fst (concat (map samples bs)) @ map snd (concat (map samples bs))).
                    0 \<le> x \<and> x \<le> 6)"
          unfolding collapse_Inr_iff by (simp only: set_append ball_Un)
        finally show ?thesis using True known some col by simp
      qed
    qed
  qed
qed

subsection \<open>The meters of the training loop\<close>

lemma train_loop_meters:
  assumes "train_loop args ep mx lw n 0 bs s = Inr s'" "meters s = [(''lr'', [])]" "bs \<noteq> []"
  shows "\<exists>losses. map loss_item bs = map Finite losses \<and>
     meters s' = [(''lr'', map (\<lambda>b. (foldl max 0 (param_group_lrs b), 1)) bs),
                  (''loss'', map (\<lambda>x. (x, 1)) losses)]"
  using assms(1,3)
proof (induction bs arbitrary: s' rule: rev_induct)
  case Nil
  then show ?case by simp
next
  case (snoc b bs)
  from snoc.prems(1) obtain s1 where loop: "train_loop args ep mx lw n 0 bs s = Inr s1"
    and step: "train_step args ep mx lw n (length bs) b s1 = Inr s'"
    by (auto simp: train_loop_snoc split: sum.splits)
  from train_step_meters[OF step] obtain x where x: "loss_item b = Finite x"
    "meters s' = logger_update ''lr'' (foldl max 0 (param_group_lrs b)) (logger_update ''loss'' x (meters s1))"
    by blast
  show ?case
  proof (cases "bs = []")
    case True
    with loop assms(2) have "meters s1 = [(''lr'', [])]" by simp
    with x True have "map loss_item (bs @ [b]) = map Finite [x] \<and>
        meters s' = [(''lr'', map (\<lambda>b. (foldl max 0 (param_group_lrs b), 1)) (bs @ [b])),
                  (''loss'', map (\<lambda>x. (x, 1)) [x])]"
      by (simp add: logger_update_def)
    then show ?thesis by blast
  next
    case False
    from snoc.IH[OF loop False] obtain losses where l: "map loss_item bs = map Finite losses"
      "meters s1 = [(''lr'', map (\<lambda>b. (foldl max 0 (param_group_lrs b), 1)) bs),
                  (''loss'', map (\<lambda>x. (x, 1)) losses)]" by blast
    with x have "map loss_item (bs @ [b]) = map Finite (losses @ [x]) \<and>
        meters s' = [(''lr'', map (\<lambda>b. (foldl max 0 (param_group_lrs b), 1)) (bs @ [b])),
                  (''loss'', map (\<lambda>x. (x, 1)) (losses @ [x]))]"
      by (simp add: logger_update_def)
    then show ?thesis by blast
  qed
qed

lemma train_one_epoch_returned:
  assumes run: "train_one_epoch bs ep mx lw args s0 = (Inr d, s')"
  shows "bs \<noteq> [] \<and> accum_iter args \<noteq> 0 \<and> (\<forall>b\<in>set bs. isfinite (loss_item b))"
    and "global_avgs (meters s') = Inr d"
    and "\<exists>losses. map loss_item bs = map Finite losses \<and>
     meters s' = [(''lr'', map (\<lambda>b. (foldl max 0 (param_group_lrs b), 1)) bs),
                  (''loss'', map (\<lambda>x. (x, 1)) losses)]"
proof -
  let ?loop = "train_loop args ep mx lw (length bs) 0 bs (train_setup lw s0)"
  from run obtain s1 where loop: "?loop = Inr s1"
    and s': "s' = s1\<lparr>calls := calls s1 @ [Synchronize, Print AveragedStats]\<rparr>"
    and d: "global_avgs (meters s1) = Inr d"
    by (auto simp: train_one_epoch_def Let_def emit_def split: sum.splits prod.splits)
  have ne: "bs \<noteq> []"
  proof
    assume "bs = []"
    with loop have "s1 = train_setup lw s0" by simp
    then have "meters s1 = [(''lr'', [])]" by (simp add: train_setup_fields)
    with d show False by (simp add: global_avg_def count_def)
  qed
  with loop show "bs \<noteq> [] \<and> accum_iter args \<noteq> 0 \<and> (\<forall>b\<in>set bs. isfinite (loss_item b))"
    using train_loop_Inr_iff[of args ep mx lw "length bs" 0 bs "train_setup lw s0"] by blast
  from d s' show "global_avgs (meters s') = Inr d" by simp
  from train_loop_meters[OF loop _ ne] s'
  show "\<exists>losses. map loss_item bs = map Finite losses \<and>
     meters s' = [(''lr'', map (\<lambda>b. (foldl max 0 (param_group_lrs b), 1)) bs),
                  (''loss'', map (\<lambda>x. (x, 1)) losses)]"
    by (simp add: train_setup_fields)
qed

lemma train_one_epoch_returns:
  assumes "bs \<noteq> []" "accum_iter args \<noteq> 0" "\<forall>b\<in>set bs. isfinite (loss_item b)"
  shows "\<exists>d. fst (train_one_epoch bs ep mx lw args s0) = Inr d"
proof -
  let ?loop = "train_loop args ep mx lw (length bs) 0 bs (train_setup lw s0)"
  from assms obtain s1 where loop: "?loop = Inr s1"
    using train_loop_Inr_iff[of args ep mx lw "length bs" 0 bs "train_setup lw s0"] by blast
  from train_loop_meters[OF loop _ assms(1)] obtain losses where
    l: "map loss_item bs = map Finite losses"
    and m: "meters s1 = [(''lr'', map (\<lambda>b. (foldl max 0 (param_group_lrs b), 1)) bs),
                  (''loss'', map (\<lambda>x. (x, 1)) losses)]"
    by (auto simp: train_setup_fields)
  from l have "length losses = length bs" by (metis length_map)
  with assms(1) have "losses \<noteq> []" by auto
  with assms(1) m have "\<exists>d. global_avgs (meters s1) = Inr d"
    by (simp add: global_avg_def count_unit)
  with loop show ?thesis by (auto simp: train_one_epoch_def Let_def emit_def)
qed

text \<open>
  C3. \<^verbatim>\<open>evaluate\<close> makes one pass over the data loader: the model is called once for each
  batch, in order. It returns exactly when there is a sample to evaluate and the optional
  plotting does not fail, and what it returns is the global average of each meter, under
  the names \<^verbatim>\<open>F1\<close>, \<^verbatim>\<open>loss\<close>, \<^verbatim>\<open>acc1\<close> and \<^verbatim>\<open>acc3\<close>, each meter updated once per batch.
  \<^verbatim>\<open>train_one_epoch\<close> returns exactly when there is a batch, \<^verbatim>\<open>accum_iter\<close> is not zero and
  every loss is finite, and what it returns is the global average of its meters \<^verbatim>\<open>lr\<close> and
  \<^verbatim>\<open>loss\<close>, each updated once per batch. The meters hold, in batch order, the values of
  their own metric: \<^verbatim>\<open>acc1\<close> the top-1 and \<^verbatim>\<open>acc3\<close> the top-3 accuracy of each batch, with
  the batch size as weight, \<^verbatim>\<open>F1\<close> the weighted F1 and \<^verbatim>\<open>loss\<close> the cross-entropy loss of
  each batch, with weight 1; in training \<^verbatim>\<open>lr\<close> the largest learning rate of the parameter
  groups and \<^verbatim>\<open>loss\<close> the loss of each batch. So the returned numbers are these averages.
\<close>

theorem passes_return_global_averages:
  "[k. Forward k t g \<leftarrow> calls (snd (evaluate data_loader args plot collapse_labels name title s0))]
     = [0..<length data_loader] \<and>
   ((\<exists>d. fst (evaluate data_loader args plot collapse_labels name title s0) = Inr d) \<longleftrightarrow>
     (\<exists>b\<in>set data_loader. samples b \<noteq> []) \<and>
     (plot \<longrightarrow> (data args = ''UCIHAR'' \<or> data args = ''RISE'') \<and>
        (collapse_labels \<longrightarrow>
           (\<forall>x\<in>set (map fst (concat (map samples data_loader)) @ map snd (concat (map samples data_loader))).
              0 \<le> x \<and> x \<le> 6)))) \<and>
   (fst (evaluate data_loader args plot collapse_labels name title s0) = Inr d \<longrightarrow>
      map fst d = [''F1'', ''loss'', ''acc1'', ''acc3''] \<and>
      global_avgs (meters (snd (evaluate data_loader args plot collapse_labels name title s0))) = Inr d \<and>
      map fst (meters (snd (evaluate data_loader args plot collapse_labels name title s0)))
        = [''F1'', ''loss'', ''acc1'', ''acc3''] \<and>
      (\<forall>m\<in>snd ` set (meters (snd (evaluate data_loader args plot collapse_labels name title s0))).
         length m = length data_loader) \<and>
      meters (snd (evaluate data_loader args plot collapse_labels name title s0)) =
        [(''F1'', map (\<lambda>b. (f1 b, 1)) data_loader),
         (''loss'', map (\<lambda>b. (loss_val b, 1)) data_loader),
         (''acc1'', map (\<lambda>b. (acc1 b, length (samples b))) data_loader),
         (''acc3'', map (\<lambda>b. (acc3 b, length (samples b))) data_loader)] \<and>
      d = [(''F1'', sum_list (map f1 data_loader) / real (length data_loader)),
           (''loss'', sum_list (map loss_val data_loader) / real (length data_loader)),
           (''acc1'', sum_list (map (\<lambda>b. acc1 b * real (length (samples b))) data_loader)
                / real (length (concat (map samples data_loader)))),
           (''acc3'', sum_list (map (\<lambda>b. acc3 b * real (length (samples b))) data_loader)
                / real (length (concat (map samples data_loader))))]) \<and>
   ((\<exists>d. fst (train_one_epoch train_loader epoch mixup_fn log_writer train_args s1) = Inr d) \<longleftrightarrow>
      train_loader \<noteq> [] \<and> accum_iter train_args \<noteq> 0 \<and> (\<forall>b\<in>set train_loader. isfinite (loss_item b))) \<and>
   (fst (train_one_epoch train_loader epoch mixup_fn log_writer train_args s1) = Inr d' \<longrightarrow>
      map fst d' = [''lr'', ''loss''] \<and>
      global_avgs (meters (snd (train_one_epoch train_loader epoch mixup_fn log_writer train_args s1))) = Inr d' \<and>
      map fst (meters (snd (train_one_epoch train_loader epoch mixup_fn log_writer train_args s1)))
        = [''lr'', ''loss''] \<and>
      (\<forall>m\<in>snd ` set (meters (snd (train_one_epoch train_loader epoch mixup_fn log_writer train_args s1))).
         length m = length train_loader) \<and>
      (\<exists>losses. map loss_item train_loader = map Finite losses \<and>
         meters (snd (train_one_epoch train_loader epoch mixup_fn log_writer train_args s1)) =
           [(''lr'', map (\<lambda>b. (foldl max 0 (param_group_lrs b), 1)) train_loader),
            (''loss'', map (\<lambda>x. (x, 1)) losses)] \<and>
         d' = [(''lr'', sum_list (map (\<lambda>b. foldl max 0 (param_group_lrs b)) train_loader)
                    / real (length train_loader)),
               (''loss'', sum_list losses / real (length train_loader))]))"
proof -
  let ?E = "evaluate data_loader args plot collapse_labels name title s0"
  let ?T = "train_one_epoch train_loader epoch mixup_fn log_writer train_args s1"
  have ev: "map fst d = [''F1'', ''loss'', ''acc1'', ''acc3''] \<and>
      global_avgs (meters (snd ?E)) = Inr d \<and>
      map fst (meters (snd ?E)) = [''F1'', ''loss'', ''acc1'', ''acc3''] \<and>
      (\<forall>m\<in>snd ` set (meters (snd ?E)). length m = length data_loader) \<and>
      meters (snd ?E) =
        [(''F1'', map (\<lambda>b. (f1 b, 1)) data_loader),
         (''loss'', map (\<lambda>b. (loss_val b, 1)) data_loader),
         (''acc1'', map (\<lambda>b. (acc1 b, length (samples b))) data_loader),
         (''acc3'', map (\<lambda>b. (acc3 b, length (samples b))) data_loader)] \<and>
      d = [(''F1'', sum_list (map f1 data_loader) / real (length data_loader)),
           (''loss'', sum_list (map loss_val data_loader) / real (length data_loader)),
           (''acc1'', sum_list (map (\<lambda>b. acc1 b * real (length (samples b))) data_loader)
                / real (length (concat (map samples data_loader)))),
           (''acc3'', sum_list (map (\<lambda>b. acc3 b * real (length (samples b))) data_loader)
                / real (length (concat (map samples data_loader))))]"
    if "fst ?E = Inr d"
  proof -
    from that have run: "?E = (Inr d, snd ?E)" by (metis prod.collapse)
    note r = evaluate_returned[OF run]
    from r(1) r(2) r(3) global_avgs_eval[OF r(1)] show ?thesis by simp
  qed
  have tr: "map fst d' = [''lr'', ''loss''] \<and>
      global_avgs (meters (snd ?T)) = Inr d' \<and>
      map fst (meters (snd ?T)) = [''lr'', ''loss''] \<and>
      (\<forall>m\<in>snd ` set (meters (snd ?T)). length m = length train_loader) \<and>
      (\<exists>losses. map loss_item train_loader = map Finite losses \<and>
         meters (snd ?T) =
           [(''lr'', map (\<lambda>b. (foldl max 0 (param_group_lrs b), 1)) train_loader),
            (''loss'', map (\<lambda>x. (x, 1)) losses)] \<and>
         d' = [(''lr'', sum_list (map (\<lambda>b. foldl max 0 (param_group_lrs b)) train_loader)
                    / real (length train_loader)),
               (''loss'', sum_list losses / real (length train_loader))])"
    if "fst ?T = Inr d'"
  proof -
    from that have run: "?T = (Inr d', snd ?T)" by (metis prod.collapse)
    note r = train_one_epoch_returned[OF run]
    from r(3) obtain losses where l: "map loss_item train_loader = map Finite losses"
      and m: "meters (snd ?T) = [(''lr'', map (\<lambda>b. (foldl max 0 (param_group_lrs b), 1)) train_loader),
                  (''loss'', map (\<lambda>x. (x, 1)) losses)]" by blast
    from l have len: "length losses = length train_loader" by (metis length_map)
    from r(1) have ne: "train_loader \<noteq> []" by blast
    have "global_avgs (meters (snd ?T)) =
        Inr [(''lr'', sum_list (map (\<lambda>b. foldl max 0 (param_group_lrs b)) train_loader)
                    / real (length train_loader)),
             (''loss'', sum_list losses / real (length train_loader))]"
      using ne len count_unit[of "\<lambda>b. foldl max 0 (param_group_lrs b)" train_loader]
        total_unit[of "\<lambda>b. foldl max 0 (param_group_lrs b)" train_loader]
        count_unit[of "\<lambda>x. x" losses] total_unit[of "\<lambda>x. x" losses]
      by (simp add: m global_avg_def)
    with r(2) have d': "d' = [(''lr'', sum_list (map (\<lambda>b. foldl max 0 (param_group_lrs b)) train_loader)
                    / real (length train_loader)),
               (''loss'', sum_list losses / real (length train_loader))]" by simp
    then have "map fst d' = [''lr'', ''loss'']" by simp
    moreover have "\<forall>m\<in>snd ` set (meters (snd ?T)). length m = length train_loader"
      using m len by simp
    moreover have "map fst (meters (snd ?T)) = [''lr'', ''loss'']" using m by simp
    ultimately show ?thesis using r(2) l m d' by blast
  qed
  have tr_iff: "(\<exists>d. fst ?T = Inr d) \<longleftrightarrow>
      train_loader \<noteq> [] \<and> accum_iter train_args \<noteq> 0 \<and> (\<forall>b\<in>set train_loader. isfinite (loss_item b))"
  proof
    assume "\<exists>d. fst ?T = Inr d"
    then obtain d where "?T = (Inr d, snd ?T)" by (metis prod.collapse)
    from train_one_epoch_returned(1)[OF this]
    show "train_loader \<noteq> [] \<and> accum_iter train_args \<noteq> 0 \<and> (\<forall>b\<in>set train_loader. isfinite (loss_item b))" .
  next
    assume "train_loader \<noteq> [] \<and> accum_iter train_args \<noteq> 0 \<and> (\<forall>b\<in>set train_loader. isfinite (loss_item b))"
    then show "\<exists>d. fst ?T = Inr d" using train_one_epoch_returns by blast
  qed
  from evaluate_forwards[of data_loader args plot collapse_labels name title s0]
    evaluate_returns_iff[of data_loader args plot collapse_labels name title s0] ev tr tr_iff
  show ?thesis by blast
qed

theorem passes_return_global_averages_witness:
  "fst (evaluate [\<lparr>samples = [(0, 0), (0, 0)], loss_val = 0, acc1 = 100, acc3 = 100, f1 = 1\<rparr>,
                  \<lparr>samples = [(1, 0), (1, 1)], loss_val = 1, acc1 = 50, acc3 = 100, f1 = 1 / 3\<rparr>]
         \<lparr>accum_iter = 1, data = ''RISE''\<rparr> False False None None idle)
     = Inr [(''F1'', 2 / 3), (''loss'', 1 / 2), (''acc1'', 75), (''acc3'', 100)] \<and>
   global_avgs (meters (snd (evaluate
        [\<lparr>samples = [(0, 0), (0, 0)], loss_val = 0, acc1 = 100, acc3 = 100, f1 = 1\<rparr>,
         \<lparr>samples = [(1, 0), (1, 1)], loss_val = 1, acc1 = 50, acc3 = 100, f1 = 1 / 3\<rparr>]
        \<lparr>accum_iter = 1, data = ''RISE''\<rparr> False False None None idle)))
     = Inr [(''F1'', 2 / 3), (''loss'', 1 / 2), (''acc1'', 75), (''acc3'', 100)] \<and>
   fst (train_one_epoch [\<lparr>loss_item = Finite 1, param_group_lrs = [1 / 10]\<rparr>,
                    \<lparr>loss_item = Finite 3, param_group_lrs = [1 / 5]\<rparr>,
                    \<lparr>loss_item = Finite 2, param_group_lrs = [1 / 5]\<rparr>]
      0 False (Some ''out'') \<lparr>accum_iter = 2, data = ''RISE''\<rparr> idle)
     = Inr [(''lr'', 1 / 6), (''loss'', 2)] \<and>
   global_avgs (meters (snd (train_one_epoch [\<lparr>loss_item = Finite 1, param_group_lrs = [1 / 10]\<rparr>,
                    \<lparr>loss_item = Finite 3, param_group_lrs = [1 / 5]\<rparr>,
                    \<lparr>loss_item = Finite 2, param_group_lrs = [1 / 5]\<rparr>]
      0 False (Some ''out'') \<lparr>accum_iter = 2, data = ''RISE''\<rparr> idle)))
     = Inr [(''lr'', 1 / 6), (''loss'', 2)]"
  using passes_return_global_averages[
      of "[\<lparr>samples = [(0, 0), (0, 0)], loss_val = 0, acc1 = 100, acc3 = 100, f1 = 1\<rparr>,
               \<lparr>samples = [(1, 0), (1, 1)], loss_val = 1, acc1 = 50, acc3 = 100, f1 = 1 / 3\<rparr>]"
         "\<lparr>accum_iter = 1, data = ''RISE''\<rparr>" False False None None idle
         "[(''F1'', 2 / 3), (''loss'', 1 / 2), (''acc1'', 75), (''acc3'', 100)]"
         "[\<lparr>loss_item = Finite 1, param_group_lrs = [1 / 10]\<rparr>,
           \<lparr>loss_item = Finite 3, param_group_lrs = [1 / 5]\<rparr>,
           \<lparr>loss_item = Finite 2, param_group_lrs = [1 / 5]\<rparr>]"
         0 False "Some ''out''" "\<lparr>accum_iter = 2, data = ''RISE''\<rparr>" idle
         "[(''lr'', 1 / 6), (''loss'', 2)]"]
  by (simp add: example_two_batches example_epoch)

subsection \<open>Cross-process reductions\<close>

lemma report_kinds: "report_call e \<Longrightarrow> \<not> reduction e \<and> \<not> batch_call e"
  by (cases e) simp_all

lemma reductions_after_loop_skip:
  "list_all (\<lambda>e. \<not> reduction e) xs \<Longrightarrow> reductions_after_loop (xs @ ys) = reductions_after_loop ys"
  by (induction xs) simp_all

lemma reductions_after_loop_violation:
  "reduction e \<Longrightarrow> batch_call e' \<Longrightarrow> e' \<in> set ys \<Longrightarrow> \<not> reductions_after_loop (xs @ e # ys)"
  by (induction xs) (auto simp: list_all_iff)

lemma pass_no_reduction:
  "list_all (\<lambda>e. \<not> reduction e) (concat (map (\<lambda>i. [Forward i t g, Criterion i]) xs))"
  by (induction xs) simp_all

lemma evaluate_reductions:
  "reductions_after_loop (calls (snd (evaluate bs args plot col name title s0))) \<and>
   filter reduction (calls (snd (evaluate bs args plot col name title s0))) = [Synchronize]"
proof -
  from evaluate_state(1)[OF prod.collapse[symmetric], of bs args plot col name title s0]
  obtain tail where c:
    "calls (snd (evaluate bs args plot col name title s0)) =
       (ModelEval # concat (map (\<lambda>i. [Forward i False False, Criterion i]) [0..<length bs]))
         @ (Synchronize # tail)" and t: "list_all report_call tail"
    by auto
  from t have nb: "list_all (\<lambda>e. \<not> batch_call e) tail" and nr: "list_all (\<lambda>e. \<not> reduction e) tail"
    using report_kinds by (auto simp: list_all_iff)
  from nr have "reductions_after_loop (tail @ [])"
    by (simp only: reductions_after_loop_skip reductions_after_loop.simps)
  with nb have "reductions_after_loop (Synchronize # tail)" by simp
  moreover have pre: "list_all (\<lambda>e. \<not> reduction e)
      (ModelEval # concat (map (\<lambda>i. [Forward i False False, Criterion i]) [0..<length bs]))"
    by (simp add: pass_no_reduction)
  ultimately have "reductions_after_loop (calls (snd (evaluate bs args plot col name title s0)))"
    unfolding c by (simp only: reductions_after_loop_skip)
  moreover from pre nr have "filter reduction (calls (snd (evaluate bs args plot col name title s0))) = [Synchronize]"
    unfolding c by (simp add: list_all_iff)
  ultimately show ?thesis by blast
qed

lemma train_loop_all_reduce:
  "train_loop args ep mx lw n k bs s = Inr s' \<Longrightarrow>
     [i. AllReduceMean i \<leftarrow> calls s'] = [i. AllReduceMean i \<leftarrow> calls s] @ [k..<k + length bs]"
proof (induction bs arbitrary: k s)
  case Nil
  then show ?case by simp
next
  case (Cons b bs)
  from Cons.prems obtain s1 where step: "train_step args ep mx lw n k b s = Inr s1"
    and rest: "train_loop args ep mx lw n (Suc k) bs s1 = Inr s'"
    by (auto split: sum.splits)
  from train_step_calls[OF step]
  have "[i. AllReduceMean i \<leftarrow> calls s1] = [i. AllReduceMean i \<leftarrow> calls s] @ [k]"
    by (auto split: if_splits)
  moreover have "[k..<k + length (b # bs)] = k # [Suc k..<Suc k + length bs]"
    by (subst upt_rec) simp
  ultimately show ?case using Cons.IH[OF rest] by simp
qed

lemma train_loop_no_sync:
  "Synchronize \<in> set (calls (state_of (train_loop args ep mx lw n k bs s))) \<Longrightarrow>
     Synchronize \<in> set (calls s)"
proof (induction bs arbitrary: k s)
  case Nil
  then show ?case by simp
next
  case (Cons b bs)
  show ?case
  proof (cases "train_step args ep mx lw n k b s")
    case (Inl es)
    obtain e s1 where es: "es = (e, s1)" by (cases es)
    from train_step_Inl[OF Inl[unfolded es]] Cons.prems Inl es show ?thesis
      by (auto split: if_splits)
  next
    case (Inr s1)
    with Cons.prems have "Synchronize \<in> set (calls (state_of (train_loop args ep mx lw n (Suc k) bs s1)))"
      by simp
    from Cons.IH[OF this] train_step_calls[OF Inr] show ?thesis
      by (auto split: if_splits)
  qed
qed

lemma train_one_epoch_sync:
  assumes "Synchronize \<in> set (calls (snd (train_one_epoch bs ep mx lw args s0)))"
  shows "\<exists>body. calls (snd (train_one_epoch bs ep mx lw args s0)) = body @ [Synchronize, Print AveragedStats] \<and>
           Synchronize \<notin> set body"
proof -
  let ?loop = "train_loop args ep mx lw (length bs) 0 bs (train_setup lw s0)"
  have none: "Synchronize \<notin> set (calls (state_of ?loop))"
    using train_loop_no_sync[of args ep mx lw "length bs" 0 bs "train_setup lw s0"]
    by (auto simp: train_setup_calls split: option.splits)
  show ?thesis
  proof (cases ?loop)
    case (Inl es)
    obtain e s1 where "es = (e, s1)" by (cases es)
    with Inl none assms show ?thesis by (simp add: train_one_epoch_def)
  next
    case (Inr s1)
    then have "calls (snd (train_one_epoch bs ep mx lw args s0)) = calls s1 @ [Synchronize, Print AveragedStats]"
      by (simp add: train_one_epoch_def Let_def emit_def)
    with none Inr show ?thesis by auto
  qed
qed

lemma train_one_epoch_all_reduce:
  assumes run: "train_one_epoch bs ep mx lw args s0 = (Inr d, s')"
  shows "[k. AllReduceMean k \<leftarrow> calls s'] = [0..<length bs]"
    and "2 \<le> length bs \<Longrightarrow> \<not> reductions_after_loop (calls s')"
proof -
  let ?loop = "train_loop args ep mx lw (length bs) 0 bs (train_setup lw s0)"
  from run obtain s3 where loop: "?loop = Inr s3"
    and s': "calls s' = calls s3 @ [Synchronize, Print AveragedStats]"
    by (auto simp: train_one_epoch_def Let_def emit_def split: sum.splits prod.splits)
  from train_loop_all_reduce[OF loop] s'
  show "[k. AllReduceMean k \<leftarrow> calls s'] = [0..<length bs]"
    by (simp add: train_setup_calls split: option.splits)
  assume "2 \<le> length bs"
  then obtain b0 b1 rest where bs: "bs = b0 # b1 # rest"
    by (cases bs; cases "tl bs") auto
  from loop[unfolded bs] obtain sa sb where
    a: "train_step args ep mx lw (length (b0 # b1 # rest)) 0 b0 (train_setup lw s0) = Inr sa"
    and b: "train_step args ep mx lw (length (b0 # b1 # rest)) (Suc 0) b1 sa = Inr sb"
    and c: "train_loop args ep mx lw (length (b0 # b1 # rest)) (Suc (Suc 0)) rest sb = Inr s3"
    by (auto split: sum.splits)
  from train_step_calls[OF a] obtain xs ys where
    ca: "calls sa = xs @ AllReduceMean 0 # ys"
    by (metis append.assoc append_Cons)
  from train_step_calls[OF b] obtain us vs t g where
    cb: "calls sb = calls sa @ us @ Forward (Suc 0) t g # vs"
    by (metis append.assoc append_Cons)
  from train_loop_cadence[of args ep mx lw "length (b0 # b1 # rest)" "Suc (Suc 0)" rest sb] c
  obtain zs where cc: "calls s3 = calls sb @ zs" by auto
  from s' ca cb cc have "calls s' = xs @ AllReduceMean 0 #
      (ys @ us @ Forward (Suc 0) t g # vs @ zs @ [Synchronize, Print AveragedStats])"
    by simp
  moreover have "\<not> reductions_after_loop (xs @ AllReduceMean 0 #
      (ys @ us @ Forward (Suc 0) t g # vs @ zs @ [Synchronize, Print AveragedStats]))"
    by (rule reductions_after_loop_violation[where e' = "Forward (Suc 0) t g"]) simp_all
  ultimately show "\<not> reductions_after_loop (calls s')" by simp
qed

text \<open>
  C6 as stated fails for \<^verbatim>\<open>train_one_epoch\<close>: line 89 calls \<^verbatim>\<open>misc.all_reduce_mean\<close> inside
  the loop, so in a run over three batches a reduction is followed by the forward pass of
  the next batch.
\<close>

theorem reductions_only_at_end_counterexample:
  "\<not> reductions_after_loop (calls (snd (train_one_epoch
        [\<lparr>loss_item = Finite 1, param_group_lrs = [1 / 10]\<rparr>,
         \<lparr>loss_item = Finite 3, param_group_lrs = [1 / 5]\<rparr>,
         \<lparr>loss_item = Finite 2, param_group_lrs = [1 / 5]\<rparr>]
        0 False (Some ''out'') \<lparr>accum_iter = 2, data = ''RISE''\<rparr> idle)))"
  by (simp add: example_epoch)

text \<open>
  C6, amended. \<^verbatim>\<open>evaluate\<close> calls a cross-process reduction once,
  \<^verbatim>\<open>synchronize_between_processes\<close>, after its batch loop and never during it. In
  \<^verbatim>\<open>train_one_epoch\<close>, \<^verbatim>\<open>synchronize_between_processes\<close> is likewise called only after the
  loop, as the call before the final print, but \<^verbatim>\<open>misc.all_reduce_mean\<close> is called inside
  the loop, once in every iteration of a run that returns, so that in a run over two or
  more batches reductions are followed by calls of later iterations.
\<close>

theorem reductions_in_the_two_passes:
  "reductions_after_loop (calls (snd (evaluate data_loader args plot collapse_labels name title s0))) \<and>
   filter reduction (calls (snd (evaluate data_loader args plot collapse_labels name title s0))) = [Synchronize] \<and>
   (Synchronize \<in> set (calls (snd (train_one_epoch train_loader epoch mixup_fn log_writer train_args s1))) \<longrightarrow>
      (\<exists>body. calls (snd (train_one_epoch train_loader epoch mixup_fn log_writer train_args s1))
                 = body @ [Synchronize, Print AveragedStats] \<and> Synchronize \<notin> set body)) \<and>
   (fst (train_one_epoch train_loader epoch mixup_fn log_writer train_args s1) = Inr d \<longrightarrow>
      [k. AllReduceMean k \<leftarrow> calls (snd (train_one_epoch train_loader epoch mixup_fn log_writer train_args s1))]
        = [0..<length train_loader] \<and>
      (2 \<le> length train_loader \<longrightarrow>
         \<not> reductions_after_loop (calls (snd (train_one_epoch train_loader epoch mixup_fn log_writer train_args s1)))))"
proof -
  let ?T = "train_one_epoch train_loader epoch mixup_fn log_writer train_args s1"
  have tr: "[k. AllReduceMean k \<leftarrow> calls (snd ?T)] = [0..<length train_loader] \<and>
      (2 \<le> length train_loader \<longrightarrow> \<not> reductions_after_loop (calls (snd ?T)))"
    if "fst ?T = Inr d"
  proof -
    from that have run: "?T = (Inr d, snd ?T)" by (metis prod.collapse)
    from train_one_epoch_all_reduce[OF run] show ?thesis by blast
  qed
  from evaluate_reductions[of data_loader args plot collapse_labels name title s0]
    train_one_epoch_sync[of train_loader epoch mixup_fn log_writer train_args s1] tr
  show ?thesis by blast
qed

theorem reductions_in_the_two_passes_witness:
  "[k. AllReduceMean k \<leftarrow> calls (snd (train_one_epoch
        [\<lparr>loss_item = Finite 1, param_group_lrs = [1 / 10]\<rparr>,
         \<lparr>loss_item = Finite 3, param_group_lrs = [1 / 5]\<rparr>,
         \<lparr>loss_item = Finite 2, param_group_lrs = [1 / 5]\<rparr>]
        0 False (Some ''out'') \<lparr>accum_iter = 2, data = ''RISE''\<rparr> idle))] = [0, 1, 2] \<and>
   filter reduction (calls (snd (evaluate
        [\<lparr>samples = [(0, 0), (0, 0)], loss_val = 0, acc1 = 100, acc3 = 100, f1 = 1\<rparr>,
         \<lparr>samples = [(1, 0), (1, 1)], loss_val = 1, acc1 = 50, acc3 = 100, f1 = 1 / 3\<rparr>]
        \<lparr>accum_iter = 1, data = ''RISE''\<rparr> False False None None idle))) = [Synchronize] \<and>
   last (calls (snd (train_one_epoch
        [\<lparr>loss_item = Finite 1, param_group_lrs = [1 / 10]\<rparr>,
         \<lparr>loss_item = Finite 3, param_group_lrs = [1 / 5]\<rparr>,
         \<lparr>loss_item = Finite 2, param_group_lrs = [1 / 5]\<rparr>]
        0 False (Some ''out'') \<lparr>accum_iter = 2, data = ''RISE''\<rparr> idle))) = Print AveragedStats"
  using reductions_in_the_two_passes[
      of "[\<lparr>samples = [(0, 0), (0, 0)], loss_val = 0, acc1 = 100, acc3 = 100, f1 = 1\<rparr>,
           \<lparr>samples = [(1, 0), (1, 1)], loss_val = 1, acc1 = 50, acc3 = 100, f1 = 1 / 3\<rparr>]"
         "\<lparr>accum_iter = 1, data = ''RISE''\<rparr>" False False None None idle
         "[\<lparr>loss_item = Finite 1, param_group_lrs = [1 / 10]\<rparr>,
           \<lparr>loss_item = Finite 3, param_group_lrs = [1 / 5]\<rparr>,
           \<lparr>loss_item = Finite 2, param_group_lrs = [1 / 5]\<rparr>]"
         0 False "Some ''out''" "\<lparr>accum_iter = 2, data = ''RISE''\<rparr>" idle
         "[(''lr'', 1 / 6), (''loss'', 2)]"]
  by (simp add: example_two_batches example_epoch)

end
